theory Spec2Isabelle
  imports Main "HOL-Library.Word"
begin

section \<open>CraftCom: rate limiter, command extractor, safety validator, chat session\<close>

text \<open>
  A shallow embedding of the request pipeline of CraftCom:
  \<^item> \<^verbatim>\<open>pkg/gemini/models.go\<close>: the per-model rate limiter;
  \<^item> \<^verbatim>\<open>pkg/gemini/chat.go\<close>: the chat session (\<^verbatim>\<open>Send\<close>) and the command extractor;
  \<^item> \<^verbatim>\<open>pkg/types\<close>: the errors, the command validator and the privilege check.

  Conventions.
  \<^item> Go's \<^verbatim>\<open>int\<close> is a 64-bit two's complement word, as on a 64-bit platform: \<open>+\<close>
    wraps, comparisons read the word with \<open>sint\<close>.
  \<^item> A Go \<^verbatim>\<open>string\<close> is a sequence of bytes, here a \<open>char list\<close>.  The functions of
    package \<^verbatim>\<open>strings\<close> and the regular expressions are modelled on ASCII text: white
    space and letter case outside ASCII are not modelled.
  \<^item> \<^verbatim>\<open>time.Time\<close> is an instant on one time line, counted in nanoseconds since Go's zero
    time; the wall clock and the monotonic clock are taken to agree.  Every reading of
    \<^verbatim>\<open>time.Now()\<close> is an explicit argument of the function that takes it.
  \<^item> The mutex of the limiter is not modelled: each operation holds it from entry to
    return, so each operation is one atomic state transformer.
\<close>

subsection \<open>Package time\<close>

type_synonym Time = int
type_synonym Duration = int

definition Second :: Duration where
  "Second = 1000000000"

definition Minute :: Duration where
  "Minute = 60 * Second"

definition Hour :: Duration where
  "Hour = 60 * Minute"

definition minDuration :: Duration where
  "minDuration = - (2 ^ 63)"

definition maxDuration :: Duration where
  "maxDuration = 2 ^ 63 - 1"

text \<open>\<^verbatim>\<open>t.Sub(u)\<close>: the difference as an int64 count of nanoseconds, saturating.\<close>

definition time_Sub :: "Time \<Rightarrow> Time \<Rightarrow> Duration" where
  "time_Sub t u =
     (if t - u < minDuration then minDuration
      else if maxDuration < t - u then maxDuration
      else t - u)"

definition time_Add :: "Time \<Rightarrow> Duration \<Rightarrow> Time" where
  "time_Add t d = t + d"

text \<open>\<^verbatim>\<open>t.Truncate(d)\<close>: \<open>t\<close> rounded down to a multiple of \<open>d\<close> since the zero time.\<close>

definition time_Truncate :: "Time \<Rightarrow> Duration \<Rightarrow> Time" where
  "time_Truncate t d = (if d \<le> 0 then t else t - t mod d)"

text \<open>\<^verbatim>\<open>time.Until(t)\<close> is \<^verbatim>\<open>t.Sub(time.Now())\<close>; \<open>tnow\<close> is that reading of the clock.\<close>

definition time_Until :: "Time \<Rightarrow> Time \<Rightarrow> Duration" where
  "time_Until t tnow = time_Sub t tnow"

subsection \<open>Package types: errors\<close>

type_synonym go_int = "64 word"

datatype ErrorType =
    ErrConfiguration | ErrExecution | ErrPermission | ErrNetwork | ErrTimeout
  | ErrValidation | ErrRateLimit | ErrModel | ErrSystem | ErrInput

text \<open>
  The text of an error.  Text built from strings alone is kept as the string; a text that
  formats numbers is kept as its format and arguments, one constructor for each format
  string of the source:
  \<^item> \<open>RPMLimitReached n lim w\<close>: \<^verbatim>\<open>"RPM limit reached (%d/%d). Try again in %.0f seconds"\<close>
    with \<open>w\<close> the wait as a duration (the source prints \<^verbatim>\<open>w.Seconds()\<close>);
  \<^item> \<open>TPMLimitReached n lim w\<close>: \<^verbatim>\<open>"TPM limit reached (%d/%d). Try again in %.0f seconds"\<close>;
  \<^item> \<open>DailyLimitReached n lim w\<close>: \<^verbatim>\<open>"Daily limit reached (%d/%d). Try again in %.0f hours"\<close>
    (the source prints \<^verbatim>\<open>w.Hours()\<close>);
  \<^item> \<open>TokenLimitExceeded n lim\<close>: \<^verbatim>\<open>"Token limit exceeded: %d/%d tokens per minute"\<close>;
  \<^item> \<open>ErrorText ty m\<close>: \<^verbatim>\<open>CustomError.Error()\<close> without a cause, \<^verbatim>\<open>"%s: %s"\<close> of the type
    and the message.
\<close>

datatype Message =
    Str string
  | RPMLimitReached go_int go_int Duration
  | TPMLimitReached go_int go_int Duration
  | DailyLimitReached go_int go_int Duration
  | TokenLimitExceeded go_int go_int
  | ErrorText ErrorType Message

text \<open>\<^verbatim>\<open>CustomError\<close>; the field \<^verbatim>\<open>Cause\<close> is \<^verbatim>\<open>nil\<close> at every construction of the source.\<close>

record CustomError =
  Type :: ErrorType
  Message :: Message

definition NewCustomError :: "ErrorType \<Rightarrow> Message \<Rightarrow> CustomError" where
  "NewCustomError errType message = \<lparr>Type = errType, Message = message\<rparr>"

definition Error :: "CustomError \<Rightarrow> Message" where
  "Error e = ErrorText (Type e) (Message e)"

definition ErrRateLimitf :: "Message \<Rightarrow> CustomError" where
  "ErrRateLimitf m = NewCustomError ErrRateLimit m"

definition ErrExecutionf :: "Message \<Rightarrow> CustomError" where
  "ErrExecutionf m = NewCustomError ErrExecution m"

definition ErrPermissionf :: "Message \<Rightarrow> CustomError" where
  "ErrPermissionf m = NewCustomError ErrPermission m"

definition ErrValidationf :: "Message \<Rightarrow> CustomError" where
  "ErrValidationf m = NewCustomError ErrValidation m"

text \<open>
  \<^verbatim>\<open>fmt.Sprintf("%.0f", d.Seconds())\<close>, as the integer it prints.  \<^verbatim>\<open>Seconds\<close> returns the
  float64 \<^verbatim>\<open>d / Second + (d % Second) / 1e9\<close> and \<^verbatim>\<open>%.0f\<close> prints the integer nearest to
  that value, a tie going to the even one.  For the waits of the minute window, at most a
  minute in absolute value, the float64 is within \<^verbatim>\<open>1e-13\<close> of the exact quotient and is
  exact on the ties, whereas a duration is a whole number of nanoseconds: the integer
  printed is the quotient of \<open>d\<close> by \<^verbatim>\<open>1e9\<close> rounded to the nearest integer, ties to even.
  \<open>printedWait\<close> reads that integer off the two messages that print seconds.
\<close>

definition printedSeconds :: "Duration \<Rightarrow> int" where
  "printedSeconds d =
     (let q = d div Second; r = d mod Second
      in if 2 * r < Second then q
         else if Second < 2 * r then q + 1
         else if even q then q else q + 1)"

fun printedWait :: "Message \<Rightarrow> int option" where
  "printedWait (RPMLimitReached n lim w) = Some (printedSeconds w)"
| "printedWait (TPMLimitReached n lim w) = Some (printedSeconds w)"
| "printedWait (ErrorText ty m) = printedWait m"
| "printedWait m = None"

subsection \<open>The rate limiter (pkg/gemini/models.go)\<close>

text \<open>\<^verbatim>\<open>ModelConfig\<close>: the fields the limiter reads.\<close>

record ModelConfig =
  Name :: string
  RPM :: go_int
  TPM :: go_int
  RPD :: go_int

record UsageRecord =
  Timestamp :: Time
  RequestType :: string
  TokenCount :: go_int
  Model :: string
  Success :: bool
  Err :: "CustomError option"

record RateLimiter =
  requestCount :: go_int
  tokenCount :: go_int
  lastReset :: Time
  dailyCount :: go_int
  dailyReset :: Time
  config :: ModelConfig
  usageHistory :: "UsageRecord list"

text \<open>
  The readings of \<^verbatim>\<open>time.Now()\<close> one operation of the limiter may take, in the order of
  the source: at entry (\<^verbatim>\<open>now\<close>), in \<^verbatim>\<open>recordUsage\<close> after a minute reset, in
  \<^verbatim>\<open>recordUsage\<close> after a daily reset, inside \<^verbatim>\<open>time.Until\<close> when a limit is reached, and
  in the operation's own \<^verbatim>\<open>recordUsage\<close>.
\<close>

record clock =
  at_entry :: Time
  at_minute_record :: Time
  at_daily_record :: Time
  at_until :: Time
  at_record :: Time

text \<open>\<^verbatim>\<open>NewRateLimiter\<close> reads the clock twice.\<close>

definition NewRateLimiter :: "Time \<Rightarrow> Time \<Rightarrow> ModelConfig \<Rightarrow> RateLimiter" where
  "NewRateLimiter t0 t1 cfg =
     \<lparr>requestCount = 0, tokenCount = 0, lastReset = t0, dailyCount = 0, dailyReset = t1,
      config = cfg, usageHistory = []\<rparr>"

definition recordUsage ::
  "Time \<Rightarrow> string \<Rightarrow> go_int \<Rightarrow> bool \<Rightarrow> CustomError option \<Rightarrow> RateLimiter \<Rightarrow> RateLimiter" where
  "recordUsage ts requestType tokens success err r =
     (let rec = \<lparr>Timestamp = ts, RequestType = requestType, TokenCount = tokens,
                     Model = Name (config r), Success = success, Err = err\<rparr>;
          h = usageHistory r @ [rec]
      in r\<lparr>usageHistory := (if 1000 < length h then tl h else h)\<rparr>)"

definition resetMinuteCounts :: "Time \<Rightarrow> Time \<Rightarrow> RateLimiter \<Rightarrow> RateLimiter" where
  "resetMinuteCounts now ts r =
     (if Minute \<le> time_Sub now (lastReset r)
      then recordUsage ts ''minute_reset'' 0 True None
             (r\<lparr>requestCount := 0, tokenCount := 0, lastReset := time_Truncate now Minute\<rparr>)
      else r)"

definition resetDailyCounts :: "Time \<Rightarrow> Time \<Rightarrow> RateLimiter \<Rightarrow> RateLimiter" where
  "resetDailyCounts now ts r =
     recordUsage ts ''daily_reset'' 0 True None (r\<lparr>dailyCount := 0, dailyReset := now\<rparr>)"

definition checkLimitExceeded :: "Time \<Rightarrow> RateLimiter \<Rightarrow> bool \<times> Message" where
  "checkLimitExceeded tu r =
     (if sint (RPM (config r)) \<le> sint (requestCount r) then
        (True, Error (ErrRateLimitf (RPMLimitReached (requestCount r) (RPM (config r))
                 (time_Until (time_Add (lastReset r) Minute) tu))))
      else if sint (TPM (config r)) \<le> sint (tokenCount r) then
        (True, Error (ErrRateLimitf (TPMLimitReached (tokenCount r) (TPM (config r))
                 (time_Until (time_Add (lastReset r) Minute) tu))))
      else if sint (RPD (config r)) \<le> sint (dailyCount r) then
        (True, Error (ErrRateLimitf (DailyLimitReached (dailyCount r) (RPD (config r))
                 (time_Until (time_Add (dailyReset r) (24 * Hour)) tu))))
      else (False, Str []))"

text \<open>
  \<^verbatim>\<open>CheckLimit\<close> returns the error (\<open>None\<close> for \<^verbatim>\<open>nil\<close>) and the limiter after the call.
\<close>

definition CheckLimit :: "clock \<Rightarrow> RateLimiter \<Rightarrow> CustomError option \<times> RateLimiter" where
  "CheckLimit c r =
     (let now = at_entry c;
          r1 = (if Minute \<le> time_Sub now (lastReset r)
                then resetMinuteCounts now (at_minute_record c) r else r);
          r2 = (if 24 * Hour \<le> time_Sub now (dailyReset r1)
                then resetDailyCounts now (at_daily_record c) r1 else r1)
      in case checkLimitExceeded (at_until c) r2 of
           (True, msg) \<Rightarrow> (Some (NewCustomError ErrRateLimit msg), r2)
         | (False, msg) \<Rightarrow>
             (None, r2\<lparr>requestCount := requestCount r2 + 1, dailyCount := dailyCount r2 + 1\<rparr>))"

definition TrackTokens :: "clock \<Rightarrow> go_int \<Rightarrow> RateLimiter \<Rightarrow> CustomError option \<times> RateLimiter" where
  "TrackTokens c n r =
     (let r1 = recordUsage (at_record c) ''token_update'' n True None
                 (r\<lparr>tokenCount := tokenCount r + n\<rparr>)
      in if sint (TPM (config r1)) \<le> sint (tokenCount r1)
         then (Some (ErrRateLimitf (TokenLimitExceeded (tokenCount r1) (TPM (config r1)))), r1)
         else (None, r1))"

definition Reset :: "clock \<Rightarrow> RateLimiter \<Rightarrow> RateLimiter" where
  "Reset c r =
     (let now = at_entry c;
          r1 = resetMinuteCounts now (at_minute_record c) r;
          r2 = resetDailyCounts now (at_daily_record c) r1
      in recordUsage (at_record c) ''manual_reset'' 0 True None r2)"

text \<open>
  The state the ceilings are checked on: the limiter after the two lazy window resets at
  the head of \<^verbatim>\<open>CheckLimit\<close>.
\<close>

definition rolled :: "clock \<Rightarrow> RateLimiter \<Rightarrow> RateLimiter" where
  "rolled c r =
     (let r1 = (if Minute \<le> time_Sub (at_entry c) (lastReset r)
                then resetMinuteCounts (at_entry c) (at_minute_record c) r else r)
      in if 24 * Hour \<le> time_Sub (at_entry c) (dailyReset r1)
         then resetDailyCounts (at_entry c) (at_daily_record c) r1 else r1)"

text \<open>A run of admission checks, one clock record for each call, the results in order.\<close>

fun CheckLimits :: "clock list \<Rightarrow> RateLimiter \<Rightarrow> CustomError option list \<times> RateLimiter" where
  "CheckLimits [] r = ([], r)"
| "CheckLimits (c # cs) r =
     (case CheckLimit c r of (e, r1) \<Rightarrow>
        (case CheckLimits cs r1 of (es, r2) \<Rightarrow> (e # es, r2)))"

text \<open>A ceiling is reached: what \<^verbatim>\<open>checkLimitExceeded\<close> tests, in its order.\<close>

definition exceeded :: "RateLimiter \<Rightarrow> bool" where
  "exceeded q \<longleftrightarrow>
     sint (RPM (config q)) \<le> sint (requestCount q) \<or>
     sint (TPM (config q)) \<le> sint (tokenCount q) \<or>
     sint (RPD (config q)) \<le> sint (dailyCount q)"

text \<open>Example values: two configurations and a clock whose readings all agree.\<close>

definition example_config :: ModelConfig where
  "example_config = \<lparr>Name = ''gemini-1.5-pro'', RPM = 2, TPM = 100, RPD = 5\<rparr>"

definition tokenless_config :: ModelConfig where
  "tokenless_config = \<lparr>Name = ''gemini-1.5-pro'', RPM = 1, TPM = 0, RPD = 2\<rparr>"

definition clock_at :: "Time \<Rightarrow> clock" where
  "clock_at t =
     \<lparr>at_entry = t, at_minute_record = t, at_daily_record = t, at_until = t, at_record = t\<rparr>"

subsection \<open>Package strings, on ASCII text\<close>

abbreviation NL :: char where
  "NL \<equiv> CHR 0x0A"

definition isSpace :: "char \<Rightarrow> bool" where
  "isSpace c \<longleftrightarrow> c \<in> set [CHR 0x09, CHR 0x0A, CHR 0x0B, CHR 0x0C, CHR 0x0D, CHR '' '']"

definition TrimSpace :: "string \<Rightarrow> string" where
  "TrimSpace s = rev (dropWhile isSpace (rev (dropWhile isSpace s)))"

fun HasPrefix :: "string \<Rightarrow> string \<Rightarrow> bool" where
  "HasPrefix s [] = True"
| "HasPrefix [] (p # ps) = False"
| "HasPrefix (c # s) (p # ps) = (c = p \<and> HasPrefix s ps)"

definition TrimPrefix :: "string \<Rightarrow> string \<Rightarrow> string" where
  "TrimPrefix s p = (if HasPrefix s p then drop (length p) s else s)"

fun Contains :: "string \<Rightarrow> string \<Rightarrow> bool" where
  "Contains [] sub = (sub = [])"
| "Contains (c # s) sub = (HasPrefix (c # s) sub \<or> Contains s sub)"

definition ContainsAny :: "string \<Rightarrow> string \<Rightarrow> bool" where
  "ContainsAny s chars \<longleftrightarrow> (\<exists>c\<in>set s. c \<in> set chars)"

definition toLower :: "char \<Rightarrow> char" where
  "toLower c =
     (case map_of (zip ''ABCDEFGHIJKLMNOPQRSTUVWXYZ'' ''abcdefghijklmnopqrstuvwxyz'') c of
        Some l \<Rightarrow> l
      | None \<Rightarrow> c)"

definition ToLower :: "string \<Rightarrow> string" where
  "ToLower s = map toLower s"

text \<open>\<^verbatim>\<open>strings.Split(s, "\n")\<close>: the lines of \<open>s\<close>; one more than its newlines.\<close>

fun Split_NL :: "string \<Rightarrow> string list" where
  "Split_NL [] = [[]]"
| "Split_NL (c # s) =
     (if c = NL then [] # Split_NL s
      else (case Split_NL s of l # ls \<Rightarrow> (c # l) # ls | [] \<Rightarrow> [[c]]))"

subsection \<open>Package regexp\<close>

text \<open>
  The extractor uses three patterns.  Go's \<^verbatim>\<open>regexp\<close> returns the match that begins
  leftmost in the text and, among the matches that begin there, the one a backtracking
  search finds first.  The matcher below is that search, for the operators the three
  patterns use.

  A character class is one byte \<open>Lit a\<close>, a letter under the flag \<^verbatim>\<open>(?i)\<close> (\<open>LitFold a\<close>),
  any byte but one (\<open>NotLit a\<close>, as \<^verbatim>\<open>[^`]\<close>, which matches a newline too), the dot
  (\<open>AnyNotNL\<close>: any byte but the newline, since the patterns do not set the flag \<^verbatim>\<open>s\<close>),
  and \<^verbatim>\<open>\s\<close> (\<open>Space\<close>: tab, newline, form feed, carriage return, space).
\<close>

datatype cclass = Lit char | LitFold char | NotLit char | AnyNotNL | Space

fun cmatch :: "cclass \<Rightarrow> char \<Rightarrow> bool" where
  "cmatch (Lit a) c = (c = a)"
| "cmatch (LitFold a) c = (toLower c = toLower a)"
| "cmatch (NotLit a) c = (c \<noteq> a)"
| "cmatch AnyNotNL c = (c \<noteq> NL)"
| "cmatch Space c = (c \<in> set [CHR 0x09, CHR 0x0A, CHR 0x0C, CHR 0x0D, CHR '' ''])"

datatype regex =
    Eps
  | Sym cclass
  | Cat regex regex
  | Alt regex regex
  | Opt regex
  | Star cclass
  | StarLazy cclass
  | Group regex

text \<open>
  \<open>Opt r\<close> is \<^verbatim>\<open>r?\<close>, \<open>Star cc\<close> is \<^verbatim>\<open>cc*\<close>, \<open>StarLazy cc\<close> is \<^verbatim>\<open>cc*?\<close> and \<open>Group r\<close> is the
  capture group \<^verbatim>\<open>(r)\<close>; each pattern has one group.

  \<open>run r s\<close> lists the ways \<open>r\<close> matches a prefix of \<open>s\<close>, in the order the search tries
  them: the text left after the match, and the text of the group when the match went
  through it.  \<open>Alt\<close> tries its left side first, \<open>Opt\<close> and \<open>Star\<close> the longer match first,
  \<open>StarLazy\<close> the shorter first.
\<close>

fun star :: "cclass \<Rightarrow> string \<Rightarrow> string list" where
  "star cc [] = [[]]"
| "star cc (c # s) = (if cmatch cc c then star cc s @ [c # s] else [c # s])"

fun starLazy :: "cclass \<Rightarrow> string \<Rightarrow> string list" where
  "starLazy cc [] = [[]]"
| "starLazy cc (c # s) = (c # s) # (if cmatch cc c then starLazy cc s else [])"

type_synonym result = "string \<times> string option"

fun run :: "regex \<Rightarrow> string \<Rightarrow> result list" where
  "run Eps s = [(s, None)]"
| "run (Sym cc) s = (case s of [] \<Rightarrow> [] | c # s' \<Rightarrow> if cmatch cc c then [(s', None)] else [])"
| "run (Cat r1 r2) s =
     concat (map (\<lambda>(s1, g1).
                map (\<lambda>(s2, g2). (s2, case g2 of None \<Rightarrow> g1 | Some x \<Rightarrow> Some x)) (run r2 s1))
             (run r1 s))"
| "run (Alt r1 r2) s = run r1 s @ run r2 s"
| "run (Opt r) s = run r s @ [(s, None)]"
| "run (Star cc) s = map (\<lambda>s'. (s', None)) (star cc s)"
| "run (StarLazy cc) s = map (\<lambda>s'. (s', None)) (starLazy cc s)"
| "run (Group r) s = map (\<lambda>(s', g). (s', Some (take (length s - length s') s))) (run r s)"

fun lits :: "string \<Rightarrow> regex" where
  "lits [] = Eps"
| "lits (c # cs) = Cat (Sym (Lit c)) (lits cs)"

fun litsFold :: "string \<Rightarrow> regex" where
  "litsFold [] = Eps"
| "litsFold (c # cs) = Cat (Sym (LitFold c)) (litsFold cs)"

definition Plus :: "cclass \<Rightarrow> regex" where
  "Plus cc = Cat (Sym cc) (Star cc)"

text \<open>
  \<^verbatim>\<open>FindStringSubmatch\<close>: the leftmost match, as the list of the matched text and the
  text of the group; the empty list (\<^verbatim>\<open>nil\<close>) when the pattern matches nowhere.
\<close>

fun FindStringSubmatch :: "regex \<Rightarrow> string \<Rightarrow> string list" where
  "FindStringSubmatch re [] =
     (case run re [] of
        (rest, g) # _ \<Rightarrow> [[], (case g of None \<Rightarrow> [] | Some x \<Rightarrow> x)]
      | [] \<Rightarrow> [])"
| "FindStringSubmatch re (c # s) =
     (case run re (c # s) of
        (rest, g) # _ \<Rightarrow>
          [take (length (c # s) - length rest) (c # s), (case g of None \<Rightarrow> [] | Some x \<Rightarrow> x)]
      | [] \<Rightarrow> FindStringSubmatch re s)"

text \<open>
  The patterns of the source:
  \<^item> \<open>codeBlockRegex\<close>: three backquotes, \<^verbatim>\<open>(?:bash|shell|zsh|cmd|powershell)?\<close>, a newline,
    \<^verbatim>\<open>(.*?)\<close>, a newline, three backquotes;
  \<^item> \<open>inlineCodeRegex\<close>: a backquote, \<^verbatim>\<open>([^`]+)\<close>, a backquote;
  \<^item> \<open>commandRegex\<close>: \<^verbatim>\<open>(?i)(?:run|execute|command):\s*(.+)\<close>.
\<close>

definition codeBlockRegex :: regex where
  "codeBlockRegex =
     Cat (lits ''```'')
      (Cat (Opt (Alt (lits ''bash'') (Alt (lits ''shell'') (Alt (lits ''zsh'')
                 (Alt (lits ''cmd'') (lits ''powershell''))))))
        (Cat (Sym (Lit NL))
          (Cat (Group (StarLazy AnyNotNL))
            (Cat (Sym (Lit NL)) (lits ''```'')))))"


definition inlineCodeRegex :: regex where
  "inlineCodeRegex =
     Cat (Sym (Lit (CHR ''`''))) (Cat (Group (Plus (NotLit (CHR ''`'')))) (Sym (Lit (CHR ''`''))))"

definition commandRegex :: regex where
  "commandRegex =
     Cat (Alt (litsFold ''run'') (Alt (litsFold ''execute'') (litsFold ''command'')))
       (Cat (Sym (Lit (CHR '':'')))
         (Cat (Star Space) (Group (Plus AnyNotNL))))"

subsection \<open>The command extractor (pkg/gemini/chat.go)\<close>

definition commonCmds :: "string list" where
  "commonCmds =
     [''ls'', ''cd'', ''pwd'', ''cp'', ''mv'', ''rm'', ''mkdir'', ''touch'', ''cat'',
      ''echo'', ''grep'', ''find'', ''sed'', ''awk'', ''curl'', ''wget'', ''git'',
      ''docker'', ''make'', ''gcc'', ''go'', ''python'', ''node'', ''npm'']"

definition isValidCommand :: "string \<Rightarrow> bool" where
  "isValidCommand cmd0 =
     (let cmd = TrimSpace cmd0 in
      if cmd = [] then False
      else if HasPrefix cmd ''/'' \<and>
              \<not> ContainsAny cmd ('' |&;<>()$`'' @ [CHR 0x5C, CHR 0x22, CHR 0x27]) then False
      else if \<exists>prefix\<in>set commonCmds. HasPrefix cmd (prefix @ '' '') \<or> cmd = prefix then True
      else if ContainsAny cmd ''|&;<>()'' then True
      else if Contains cmd ''$'' \<or> Contains cmd ''`'' then True
      else False)"

text \<open>
  \<^verbatim>\<open>genai.Content\<close>: parts that are text or binary data (a MIME type and bytes), and a
  role.
\<close>

datatype Part = Text string | Blob string string

record Content =
  Parts :: "Part list"
  Role :: string

text \<open>The text parts, concatenated: \<^verbatim>\<open>fullOutput\<close>.\<close>

fun textOf :: "Part list \<Rightarrow> string" where
  "textOf [] = []"
| "textOf (Text t # ps) = t @ textOf ps"
| "textOf (Blob m d # ps) = textOf ps"

text \<open>
  The loop of the third strategy over the lines: the first marked line whose command is
  valid, if there is one.
\<close>

fun scanLines :: "string list \<Rightarrow> string option" where
  "scanLines [] = None"
| "scanLines (l # ls) =
     (let line = TrimSpace l in
      if HasPrefix line ''$'' \<or> HasPrefix line ''#'' \<or> HasPrefix line ''>'' then
        (let command = TrimSpace (TrimPrefix (TrimPrefix (TrimPrefix line ''$'') ''#'') ''>'')
         in if isValidCommand command then Some command else scanLines ls)
      else scanLines ls)"

text \<open>
  \<^verbatim>\<open>extractCommandAndOutput\<close> returns the command and the full output.  The source takes
  the first element of \<^verbatim>\<open>FindAllStringSubmatch(fullOutput, -1)\<close> for the first two
  strategies: that is the leftmost match, the result of \<open>FindStringSubmatch\<close>, and its
  tests \<^verbatim>\<open>len(matches) > 0 && len(matches[0]) > 1\<close> say that this result has its group.
\<close>

definition extractCommandAndOutput :: "Content \<Rightarrow> string \<times> string" where
  "extractCommandAndOutput content =
     (let fullOutput = textOf (Parts content);
          m1 = FindStringSubmatch codeBlockRegex fullOutput
      in if 1 < length m1 \<and> isValidCommand (TrimSpace (m1 ! 1))
         then (TrimSpace (m1 ! 1), fullOutput)
         else
          (let m2 = FindStringSubmatch inlineCodeRegex fullOutput
           in if 1 < length m2 \<and> isValidCommand (TrimSpace (m2 ! 1))
              then (TrimSpace (m2 ! 1), fullOutput)
              else
               (case scanLines (Split_NL fullOutput) of
                  Some command \<Rightarrow> (command, fullOutput)
                | None \<Rightarrow>
                   (let m4 = FindStringSubmatch commandRegex fullOutput
                    in if 1 < length m4 \<and> isValidCommand (TrimSpace (m4 ! 1))
                       then (TrimSpace (m4 ! 1), fullOutput)
                       else ([], fullOutput)))))"

text \<open>
  The candidates of the four strategies, in the order the extractor tries them: the group
  of the first fenced block, the group of the first inline span, the marked lines with
  their marker removed, and the group of the keyword pattern.
\<close>

definition marked :: "string \<Rightarrow> bool" where
  "marked line \<longleftrightarrow> HasPrefix line ''$'' \<or> HasPrefix line ''#'' \<or> HasPrefix line ''>''"

definition unmark :: "string \<Rightarrow> string" where
  "unmark line = TrimSpace (TrimPrefix (TrimPrefix (TrimPrefix line ''$'') ''#'') ''>'')"

definition submatch :: "regex \<Rightarrow> string \<Rightarrow> string list" where
  "submatch re raw =
     (let m = FindStringSubmatch re raw in if 1 < length m then [TrimSpace (m ! 1)] else [])"

definition markerCandidates :: "string \<Rightarrow> string list" where
  "markerCandidates raw = map unmark (filter marked (map TrimSpace (Split_NL raw)))"

definition candidates :: "string \<Rightarrow> string list" where
  "candidates raw =
     submatch codeBlockRegex raw @ submatch inlineCodeRegex raw @ markerCandidates raw @
     submatch commandRegex raw"

text \<open>An answer of the model made of one text part.\<close>

definition says :: "string \<Rightarrow> Content" where
  "says t = \<lparr>Parts = [Text t], Role = ''model''\<rparr>"

subsection \<open>The command validator (pkg/types)\<close>

text \<open>\<^verbatim>\<open>IsPrivilegedOperation\<close>; \<open>goos\<close> is \<^verbatim>\<open>runtime.GOOS\<close>.\<close>

definition adminCommands :: "string list" where
  "adminCommands =
     [''net user'', ''net localgroup'', ''reg add'', ''reg delete'', ''sc '', ''bcdedit'']"

definition criticalPaths :: "string list" where
  "criticalPaths =
     [''/etc/'', ''/usr/'', ''/var/'', ''/bin/'', ''/sbin/'',
      ''C:'' @ [CHR 0x5C] @ ''Windows'' @ [CHR 0x5C],
      ''C:'' @ [CHR 0x5C] @ ''Program Files'' @ [CHR 0x5C]]"

definition IsPrivilegedOperation :: "string \<Rightarrow> string \<Rightarrow> bool" where
  "IsPrivilegedOperation goos command0 =
     (let command = TrimSpace command0 in
      if HasPrefix command ''sudo '' \<or> HasPrefix command ''su '' then True
      else if goos = ''windows'' \<and>
              (\<exists>cmd\<in>set adminCommands. HasPrefix (ToLower command) (ToLower cmd)) then True
      else if \<exists>path\<in>set criticalPaths. Contains command path then True
      else False)"

definition dangerousCommands :: "string list" where
  "dangerousCommands =
     [''rm -rf'', ''rmdir /s'', ''del /f'', ''format'', ''mkfs'', '':(){:|:&};:'', ''dd'',
      ''> /dev/sda'', ''chmod -R 777'']"

text \<open>
  \<^verbatim>\<open>ValidateCommand\<close>: \<open>None\<close> is \<^verbatim>\<open>nil\<close>.  The loop over the deny-list returns at the first
  entry found in the command, which is what \<open>find\<close> computes.
\<close>

definition ValidateCommand :: "string \<Rightarrow> string \<Rightarrow> CustomError option" where
  "ValidateCommand goos command0 =
     (let command = TrimSpace command0 in
      if command = [] then Some (ErrValidationf (Str ''empty command''))
      else
       (case find (\<lambda>dangerous. Contains (ToLower command) (ToLower dangerous))
               dangerousCommands of
          Some dangerous \<Rightarrow>
            Some (ErrPermissionf (Str (''potentially dangerous command detected: '' @ dangerous)))
        | None \<Rightarrow>
            if IsPrivilegedOperation goos command then
              (if \<not> HasPrefix command ''sudo '' \<and> goos \<noteq> ''windows''
               then Some (ErrPermissionf (Str ''this command requires elevated privileges''))
               else None)
            else None))"

subsection \<open>The chat session (pkg/gemini/chat.go)\<close>

text \<open>
  \<^verbatim>\<open>types.SystemInfo\<close> (without its environment map) and \<^verbatim>\<open>ChatContext\<close>.  The field
  \<^verbatim>\<open>WorkingDir\<close> of the former is \<open>SysWorkingDir\<close> here and the field \<^verbatim>\<open>SystemInfo\<close> of the
  latter is \<open>SysInfo\<close>.
\<close>

record SystemInfo =
  OS :: string
  Shell :: string
  User :: string
  HomeDir :: string
  SysWorkingDir :: string

record ChatContext =
  WorkingDir :: string
  LastCommand :: string
  LastOutput :: string
  Environment :: "string \<rightharpoonup> string"
  SysInfo :: SystemInfo
  LastModified :: Time
  SessionStart :: Time
  CommandCount :: go_int
  ErrorCount :: go_int

text \<open>
  The answer of the backend to \<^verbatim>\<open>GenerateContent\<close>: a list of candidates, each with a
  content that may be \<^verbatim>\<open>nil\<close>.
\<close>

record Candidate =
  CandContent :: "Content option"

record GenerateContentResponse =
  Candidates :: "Candidate list"

text \<open>
  \<^verbatim>\<open>Chat\<close>: the fields \<^verbatim>\<open>Send\<close> reads or writes.  \<open>currentContext\<close> is taken to be set
  (the session is initialised and not closed).
\<close>

record Chat =
  modelConfig :: ModelConfig
  rateLimiter :: RateLimiter
  history :: "Content list"
  currentContext :: ChatContext

text \<open>
  \<^verbatim>\<open>types.Response\<close>; of the metadata, the entries that are neither clock readings nor
  the pointer to the context.
\<close>

record Metadata =
  meta_model :: string
  tokens_used :: go_int
  command_count :: go_int
  error_count :: go_int

record Response =
  Code :: string
  FullOutput :: string
  Meta :: Metadata

definition addContext :: "Chat \<Rightarrow> string \<Rightarrow> string" where
  "addContext c message =
     ''Current directory: '' @ WorkingDir (currentContext c) @ [NL] @
     ''Last command: '' @ LastCommand (currentContext c) @ [NL] @
     ''Last output: '' @ LastOutput (currentContext c) @ [NL] @
     ''OS: '' @ OS (SysInfo (currentContext c)) @ [NL] @
     ''Shell: '' @ Shell (SysInfo (currentContext c)) @ [NL] @ [NL] @
     ''User request: '' @ message"

text \<open>\<^verbatim>\<open>c.currentContext.ErrorCount++\<close>\<close>

definition countError :: "Chat \<Rightarrow> Chat" where
  "countError c =
     c\<lparr>currentContext := (currentContext c)\<lparr>ErrorCount := ErrorCount (currentContext c) + 1\<rparr>\<rparr>"

text \<open>
  The clock readings of one \<^verbatim>\<open>Send\<close>: those of \<^verbatim>\<open>CheckLimit\<close>, the one stored in
  \<open>LastModified\<close>, and those of \<^verbatim>\<open>TrackTokens\<close>.
\<close>

record send_clock =
  at_check :: clock
  at_modified :: Time
  at_track :: clock

text \<open>
  \<^verbatim>\<open>Send\<close>.  Two parameters stand for what lies outside the repository or outside this
  model: \<open>estimate\<close> is \<^verbatim>\<open>estimateTokenCount\<close> (floating-point arithmetic), and \<open>backend\<close> is
  the remote model behind \<^verbatim>\<open>GenerateContent\<close>, which answers the prompt parts with an
  error text or a response.  The result is the error or the response, and the session
  after the call.
\<close>

definition Send ::
  "(string \<Rightarrow> go_int) \<Rightarrow> (Part list \<Rightarrow> string + GenerateContentResponse) \<Rightarrow>
   send_clock \<Rightarrow> string \<Rightarrow> Chat \<Rightarrow> (CustomError + Response) \<times> Chat" where
  "Send estimate backend ck message c =
     (case CheckLimit (at_check ck) (rateLimiter c) of
        (Some err, rl) \<Rightarrow> (Inl err, c\<lparr>rateLimiter := rl\<rparr>)
      | (None, rl) \<Rightarrow>
         (let c1 = c\<lparr>rateLimiter := rl\<rparr>;
              contextualMessage = addContext c1 message;
              parts = [Text contextualMessage]
          in case backend parts of
               Inl err \<Rightarrow>
                 (Inl (ErrExecutionf (Str (''failed to generate content: '' @ err))),
                  countError c1)
             | Inr resp \<Rightarrow>
                (case Candidates resp of
                   [] \<Rightarrow> (Inl (ErrExecutionf (Str ''no response generated'')), countError c1)
                 | candidate # others \<Rightarrow>
                    (case CandContent candidate of
                       None \<Rightarrow>
                         (Inl (ErrExecutionf (Str ''empty response content'')), countError c1)
                     | Some content \<Rightarrow>
                        if Parts content = [] then
                          (Inl (ErrExecutionf (Str ''empty response content'')), countError c1)
                        else
                         (let command = fst (extractCommandAndOutput content);
                              fullOutput = snd (extractCommandAndOutput content);
                              c2 = c1\<lparr>history := history c1 @
                                       [\<lparr>Parts = [Text contextualMessage], Role = ''user''\<rparr>,
                                        content],
                                     currentContext := (currentContext c1)
                                       \<lparr>LastCommand := command,
                                        LastModified := at_modified ck,
                                        CommandCount := CommandCount (currentContext c1) + 1\<rparr>\<rparr>;
                              tokens = estimate (contextualMessage @ fullOutput)
                          in case TrackTokens (at_track ck) tokens (rateLimiter c2) of
                               (Some err, rl2) \<Rightarrow> (Inl err, c2\<lparr>rateLimiter := rl2\<rparr>)
                             | (None, rl2) \<Rightarrow>
                                 (Inr \<lparr>Code = command, FullOutput = fullOutput,
                                       Meta = \<lparr>meta_model = Name (modelConfig c2),
                                               tokens_used = tokens,
                                               command_count = CommandCount (currentContext c2),
                                               error_count = ErrorCount (currentContext c2)\<rparr>\<rparr>,
                                  c2\<lparr>rateLimiter := rl2\<rparr>))))))"

text \<open>An example session: one request, answered with a fenced block.\<close>

definition example_context :: ChatContext where
  "example_context =
     \<lparr>WorkingDir = ''/home/dev'', LastCommand = [], LastOutput = [], Environment = Map.empty,
      SysInfo = \<lparr>OS = ''linux'', Shell = ''bash'', User = ''dev'', HomeDir = ''/home/dev'',
                 SysWorkingDir = ''/home/dev''\<rparr>,
      LastModified = 0, SessionStart = 0, CommandCount = 0, ErrorCount = 0\<rparr>"

definition example_chat :: Chat where
  "example_chat =
     \<lparr>modelConfig = example_config, rateLimiter = NewRateLimiter 0 0 example_config,
      history = [], currentContext = example_context\<rparr>"

definition example_reply :: string where
  "example_reply = ''```bash'' @ [NL] @ ''ls -la'' @ [NL] @ ''```''"

definition example_backend :: "Part list \<Rightarrow> string + GenerateContentResponse" where
  "example_backend parts = Inr \<lparr>Candidates = [\<lparr>CandContent = Some (says example_reply)\<rparr>]\<rparr>"

definition example_estimate :: "string \<Rightarrow> go_int" where
  "example_estimate s = 10"

definition example_send_clock :: send_clock where
  "example_send_clock = \<lparr>at_check = clock_at 5, at_modified = 6, at_track = clock_at 7\<rparr>"

section \<open>Properties\<close>

subsection \<open>Arithmetic of counters and durations\<close>

lemma sint_succ_below:
  fixes x y :: go_int
  assumes "sint x < sint y"
  shows "sint (x + 1) = sint x + 1"
proof -
  have lo: "- (2 ^ 63) \<le> sint x" using sint_ge [of x] by simp
  have hi: "sint y < 2 ^ 63" using sint_lt [of y] by simp
  have "sint (x + 1) = signed_take_bit 63 (sint x + 1)"
    by (simp add: sint_word_ariths)
  also have "\<dots> = sint x + 1"
    using lo hi assms by (intro signed_take_bit_int_eq_self) auto
  finally show ?thesis .
qed

lemma Minute_le_time_Sub: "Minute \<le> time_Sub t u \<longleftrightarrow> Minute \<le> t - u"
  by (simp add: time_Sub_def Minute_def Second_def minDuration_def maxDuration_def)

lemma Day_le_time_Sub: "24 * Hour \<le> time_Sub t u \<longleftrightarrow> 24 * Hour \<le> t - u"
  by (simp add: time_Sub_def Hour_def Minute_def Second_def minDuration_def maxDuration_def)

subsection \<open>The limiter: frame lemmas\<close>

lemma recordUsage_fields [simp]:
  "requestCount (recordUsage ts ty n ok e r) = requestCount r"
  "tokenCount (recordUsage ts ty n ok e r) = tokenCount r"
  "dailyCount (recordUsage ts ty n ok e r) = dailyCount r"
  "lastReset (recordUsage ts ty n ok e r) = lastReset r"
  "dailyReset (recordUsage ts ty n ok e r) = dailyReset r"
  "config (recordUsage ts ty n ok e r) = config r"
  by (simp_all add: recordUsage_def Let_def)

lemma CheckLimit_rolled:
  "CheckLimit c r =
     (case checkLimitExceeded (at_until c) (rolled c r) of
        (True, msg) \<Rightarrow> (Some (NewCustomError ErrRateLimit msg), rolled c r)
      | (False, msg) \<Rightarrow>
          (None, (rolled c r)\<lparr>requestCount := requestCount (rolled c r) + 1,
                              dailyCount := dailyCount (rolled c r) + 1\<rparr>))"
  unfolding CheckLimit_def rolled_def Let_def by (rule refl)

lemma rolled_config [simp]: "config (rolled c r) = config r"
  by (simp add: rolled_def resetMinuteCounts_def resetDailyCounts_def Let_def)

lemma rolled_counters:
  "requestCount (rolled c r) = 0 \<or> requestCount (rolled c r) = requestCount r"
  "tokenCount (rolled c r) = 0 \<or> tokenCount (rolled c r) = tokenCount r"
  "dailyCount (rolled c r) = 0 \<or> dailyCount (rolled c r) = dailyCount r"
  by (simp_all add: rolled_def resetMinuteCounts_def resetDailyCounts_def Let_def)

lemma fst_checkLimitExceeded: "fst (checkLimitExceeded tu q) = exceeded q"
  by (auto simp add: checkLimitExceeded_def exceeded_def)

lemma CheckLimit_refused:
  assumes "exceeded (rolled c r)"
  shows "CheckLimit c r =
     (Some (NewCustomError ErrRateLimit (snd (checkLimitExceeded (at_until c) (rolled c r)))),
      rolled c r)"
proof -
  obtain b msg where eq: "checkLimitExceeded (at_until c) (rolled c r) = (b, msg)"
    by (cases "checkLimitExceeded (at_until c) (rolled c r)")
  with assms have "b" using fst_checkLimitExceeded [of "at_until c" "rolled c r"] by simp
  with eq show ?thesis by (simp add: CheckLimit_rolled)
qed

lemma CheckLimit_admitted:
  assumes "\<not> exceeded (rolled c r)"
  shows "CheckLimit c r =
     (None, (rolled c r)\<lparr>requestCount := requestCount (rolled c r) + 1,
                          dailyCount := dailyCount (rolled c r) + 1\<rparr>)"
proof -
  obtain b msg where eq: "checkLimitExceeded (at_until c) (rolled c r) = (b, msg)"
    by (cases "checkLimitExceeded (at_until c) (rolled c r)")
  with assms have "\<not> b" using fst_checkLimitExceeded [of "at_until c" "rolled c r"] by simp
  with eq show ?thesis by (simp add: CheckLimit_rolled)
qed

lemmas eval_defs =
  CheckLimit_def checkLimitExceeded_def NewRateLimiter_def example_config_def
  tokenless_config_def clock_at_def rolled_def
  time_Sub_def time_Truncate_def time_Until_def time_Add_def
  Minute_def Hour_def Second_def minDuration_def maxDuration_def Let_def
  resetMinuteCounts_def resetDailyCounts_def recordUsage_def Reset_def TrackTokens_def
  NewCustomError_def ErrRateLimitf_def Error_def

subsection \<open>The ceilings after an admission\<close>

text \<open>
  Claim C1.  Whatever the state of the limiter, after a \<^verbatim>\<open>CheckLimit\<close> that returns
  \<^verbatim>\<open>nil\<close> the three counters are within their ceilings: \<open>requestCount \<le> RPM\<close>,
  \<open>tokenCount \<le> TPM\<close> and \<open>dailyCount \<le> RPD\<close>.  When a ceiling is reached on the state the
  check runs on (the limiter after the lazy window resets), the call returns an error of
  type \<^verbatim>\<open>rate_limit_error\<close> and the limiter it leaves is that state itself: nothing is
  incremented, and each counter is either zero or what it was before the call, so none
  has become negative.
\<close>

theorem CheckLimit_ceilings:
  "(fst (CheckLimit c r) = None \<longrightarrow>
      sint (requestCount (snd (CheckLimit c r))) \<le> sint (RPM (config (snd (CheckLimit c r)))) \<and>
      sint (tokenCount (snd (CheckLimit c r))) \<le> sint (TPM (config (snd (CheckLimit c r)))) \<and>
      sint (dailyCount (snd (CheckLimit c r))) \<le> sint (RPD (config (snd (CheckLimit c r)))))
   \<and>
   (sint (RPM (config r)) \<le> sint (requestCount (rolled c r)) \<or>
    sint (TPM (config r)) \<le> sint (tokenCount (rolled c r)) \<or>
    sint (RPD (config r)) \<le> sint (dailyCount (rolled c r)) \<longrightarrow>
      (\<exists>e. fst (CheckLimit c r) = Some e \<and> Type e = ErrRateLimit) \<and>
      snd (CheckLimit c r) = rolled c r \<and>
      (requestCount (rolled c r) = 0 \<or> requestCount (rolled c r) = requestCount r) \<and>
      (tokenCount (rolled c r) = 0 \<or> tokenCount (rolled c r) = tokenCount r) \<and>
      (dailyCount (rolled c r) = 0 \<or> dailyCount (rolled c r) = dailyCount r))"
proof (intro conjI impI)
  assume ok: "fst (CheckLimit c r) = None"
  have ne: "\<not> exceeded (rolled c r)"
  proof
    assume "exceeded (rolled c r)"
    from CheckLimit_refused [OF this] ok show False by auto
  qed
  note eq = CheckLimit_admitted [OF ne]
  from ne have a: "sint (requestCount (rolled c r)) < sint (RPM (config r))"
    and b: "sint (tokenCount (rolled c r)) < sint (TPM (config r))"
    and d: "sint (dailyCount (rolled c r)) < sint (RPD (config r))"
    by (simp_all add: exceeded_def)
  show "sint (requestCount (snd (CheckLimit c r))) \<le> sint (RPM (config (snd (CheckLimit c r))))"
    using a sint_succ_below [OF a] by (simp add: eq)
  show "sint (tokenCount (snd (CheckLimit c r))) \<le> sint (TPM (config (snd (CheckLimit c r))))"
    using b by (simp add: eq)
  show "sint (dailyCount (snd (CheckLimit c r))) \<le> sint (RPD (config (snd (CheckLimit c r))))"
    using d sint_succ_below [OF d] by (simp add: eq)
next
  assume "sint (RPM (config r)) \<le> sint (requestCount (rolled c r)) \<or>
    sint (TPM (config r)) \<le> sint (tokenCount (rolled c r)) \<or>
    sint (RPD (config r)) \<le> sint (dailyCount (rolled c r))"
  then have ex: "exceeded (rolled c r)" by (simp add: exceeded_def)
  from CheckLimit_refused [OF ex]
  show "\<exists>e. fst (CheckLimit c r) = Some e \<and> Type e = ErrRateLimit"
    by (auto simp add: NewCustomError_def)
  from CheckLimit_refused [OF ex] show "snd (CheckLimit c r) = rolled c r" by auto
qed (rule rolled_counters)+

theorem CheckLimit_ceilings_witness:
  "fst (CheckLimit (clock_at 5) (NewRateLimiter 0 0 example_config)) = None \<and>
   sint (requestCount (snd (CheckLimit (clock_at 5) (NewRateLimiter 0 0 example_config)))) \<le> 2 \<and>
   sint (RPM (config ((NewRateLimiter 0 0 example_config)\<lparr>requestCount := 2\<rparr>)))
     \<le> sint (requestCount
         (rolled (clock_at 5) ((NewRateLimiter 0 0 example_config)\<lparr>requestCount := 2\<rparr>))) \<and>
   snd (CheckLimit (clock_at 5) ((NewRateLimiter 0 0 example_config)\<lparr>requestCount := 2\<rparr>))
     = rolled (clock_at 5) ((NewRateLimiter 0 0 example_config)\<lparr>requestCount := 2\<rparr>)"
  using CheckLimit_ceilings [of "clock_at 5" "NewRateLimiter 0 0 example_config"]
    CheckLimit_ceilings
      [of "clock_at 5" "(NewRateLimiter 0 0 example_config)\<lparr>requestCount := 2\<rparr>"]
  by (simp add: eval_defs)

lemma time_Sub_less_Minute: "time_Sub t u < Minute \<longleftrightarrow> t - u < Minute"
  using Minute_le_time_Sub [of t u] by linarith

lemma time_Sub_less_Day: "time_Sub t u < 24 * Hour \<longleftrightarrow> t - u < 24 * Hour"
  using Day_le_time_Sub [of t u] by linarith

lemma Truncate_Minute_bounds:
  "time_Truncate t Minute \<le> t" "t - Minute < time_Truncate t Minute"
proof -
  have pos: "0 < Minute" by (simp add: Minute_def Second_def)
  have "0 \<le> t mod Minute" "t mod Minute < Minute"
    using pos by simp_all
  then show "time_Truncate t Minute \<le> t" "t - Minute < time_Truncate t Minute"
    using pos by (simp_all add: time_Truncate_def)
qed

lemma resetMinuteCounts_due:
  assumes "Minute \<le> time_Sub now (lastReset r)"
  shows "requestCount (resetMinuteCounts now ts r) = 0"
    and "tokenCount (resetMinuteCounts now ts r) = 0"
    and "lastReset (resetMinuteCounts now ts r) = time_Truncate now Minute"
    and "dailyCount (resetMinuteCounts now ts r) = dailyCount r"
    and "dailyReset (resetMinuteCounts now ts r) = dailyReset r"
    and "config (resetMinuteCounts now ts r) = config r"
  using assms by (simp_all add: resetMinuteCounts_def)

lemma resetMinuteCounts_early:
  assumes "time_Sub now (lastReset r) < Minute"
  shows "resetMinuteCounts now ts r = r"
  using assms by (simp add: resetMinuteCounts_def)

lemma rolled_minute_only:
  assumes "Minute \<le> time_Sub (at_entry c) (lastReset r)"
    and "time_Sub (at_entry c) (dailyReset r) < 24 * Hour"
  shows "rolled c r = resetMinuteCounts (at_entry c) (at_minute_record c) r"
  using assms by (simp add: rolled_def Let_def resetMinuteCounts_due)

subsection \<open>The minute window\<close>

lemma rolled_minute_due:
  assumes "Minute \<le> time_Sub (at_entry c) (lastReset r)"
  shows "requestCount (rolled c r) = 0" "tokenCount (rolled c r) = 0"
    "lastReset (rolled c r) = time_Truncate (at_entry c) Minute"
  using assms by (simp_all add: rolled_def Let_def resetDailyCounts_def resetMinuteCounts_due)

text \<open>
  Claim C7.  When \<^verbatim>\<open>CheckLimit\<close> finds that a minute or more has passed since
  \<open>lastReset\<close>, \<^verbatim>\<open>resetMinuteCounts\<close> sets \<open>requestCount\<close> and \<open>tokenCount\<close> to zero and
  \<open>lastReset\<close> to \<open>now\<close> truncated to the minute, and touches neither \<open>dailyCount\<close> nor
  \<open>dailyReset\<close>; the limiter the ceilings are checked on has \<open>requestCount\<close> and
  \<open>tokenCount\<close> zero and \<open>lastReset\<close> at that boundary, which is later than the old
  \<open>lastReset\<close>, whether or not the day window is due as well.  The call leaves that
  limiter as it is when it refuses, and with its own admission counted (\<open>requestCount = 1\<close>,
  \<open>dailyCount\<close> one more) when it admits.  As long as less than 24 hours have passed since
  \<open>dailyReset\<close>, that limiter is the one \<^verbatim>\<open>resetMinuteCounts\<close> leaves, \<open>dailyCount\<close> and
  \<open>dailyReset\<close> are what they were before the call, and an admission leaves \<open>dailyCount\<close>
  one more than it was before the call.
\<close>

theorem minute_rollover:
  assumes due: "Minute \<le> time_Sub (at_entry c) (lastReset r)"
  shows "requestCount (resetMinuteCounts (at_entry c) (at_minute_record c) r) = 0 \<and>
         tokenCount (resetMinuteCounts (at_entry c) (at_minute_record c) r) = 0 \<and>
         lastReset (resetMinuteCounts (at_entry c) (at_minute_record c) r) =
           time_Truncate (at_entry c) Minute \<and>
         dailyCount (resetMinuteCounts (at_entry c) (at_minute_record c) r) = dailyCount r \<and>
         dailyReset (resetMinuteCounts (at_entry c) (at_minute_record c) r) = dailyReset r \<and>
         requestCount (rolled c r) = 0 \<and>
         tokenCount (rolled c r) = 0 \<and>
         lastReset (rolled c r) = time_Truncate (at_entry c) Minute \<and>
         lastReset r < lastReset (rolled c r) \<and>
         snd (CheckLimit c r) =
           (if fst (CheckLimit c r) = None
            then (rolled c r)\<lparr>requestCount := 1, dailyCount := dailyCount (rolled c r) + 1\<rparr>
            else rolled c r) \<and>
         (time_Sub (at_entry c) (dailyReset r) < 24 * Hour \<longrightarrow>
            rolled c r = resetMinuteCounts (at_entry c) (at_minute_record c) r \<and>
            dailyCount (rolled c r) = dailyCount r \<and>
            dailyReset (rolled c r) = dailyReset r \<and>
            snd (CheckLimit c r) =
              (if fst (CheckLimit c r) = None
               then (rolled c r)\<lparr>requestCount := 1, dailyCount := dailyCount r + 1\<rparr>
               else rolled c r))"
proof -
  let ?q = "rolled c r"
  note f = resetMinuteCounts_due [OF due, of "at_minute_record c"]
  note g = rolled_minute_due [OF due]
  have adv: "lastReset r < lastReset ?q"
  proof -
    from due have "Minute \<le> at_entry c - lastReset r" by (simp add: Minute_le_time_Sub)
    with Truncate_Minute_bounds(2) [of "at_entry c"] show ?thesis
      by (simp add: g)
  qed
  have fin: "snd (CheckLimit c r) =
           (if fst (CheckLimit c r) = None
            then ?q\<lparr>requestCount := 1, dailyCount := dailyCount ?q + 1\<rparr>
            else ?q)"
  proof (cases "exceeded ?q")
    case True
    from CheckLimit_refused [OF True] show ?thesis by simp
  next
    case False
    from CheckLimit_admitted [OF False] show ?thesis by (simp add: g)
  qed
  have day: "?q = resetMinuteCounts (at_entry c) (at_minute_record c) r \<and>
            dailyCount ?q = dailyCount r \<and>
            dailyReset ?q = dailyReset r \<and>
            snd (CheckLimit c r) =
              (if fst (CheckLimit c r) = None
               then ?q\<lparr>requestCount := 1, dailyCount := dailyCount r + 1\<rparr>
               else ?q)"
    if d: "time_Sub (at_entry c) (dailyReset r) < 24 * Hour"
  proof -
    have q: "?q = resetMinuteCounts (at_entry c) (at_minute_record c) r"
      by (rule rolled_minute_only [OF due d])
    have dq: "dailyCount ?q = dailyCount r" "dailyReset ?q = dailyReset r"
      unfolding q by (simp_all add: f)
    from fin show ?thesis unfolding dq(1) using q dq by simp
  qed
  from f g adv fin day show ?thesis by simp
qed

theorem minute_rollover_witness:
  "Minute \<le> time_Sub (at_entry (clock_at 90000000000))
              (lastReset ((NewRateLimiter 0 0 example_config)
                 \<lparr>requestCount := 2, tokenCount := 7, dailyCount := 2\<rparr>)) \<and>
   time_Sub (at_entry (clock_at 90000000000))
     (dailyReset ((NewRateLimiter 0 0 example_config)
        \<lparr>requestCount := 2, tokenCount := 7, dailyCount := 2\<rparr>)) < 24 * Hour \<and>
   requestCount (rolled (clock_at 90000000000)
     ((NewRateLimiter 0 0 example_config)
        \<lparr>requestCount := 2, tokenCount := 7, dailyCount := 2\<rparr>)) = 0 \<and>
   tokenCount (rolled (clock_at 90000000000)
     ((NewRateLimiter 0 0 example_config)
        \<lparr>requestCount := 2, tokenCount := 7, dailyCount := 2\<rparr>)) = 0 \<and>
   lastReset (rolled (clock_at 90000000000)
     ((NewRateLimiter 0 0 example_config)
        \<lparr>requestCount := 2, tokenCount := 7, dailyCount := 2\<rparr>)) = 60000000000 \<and>
   dailyCount (rolled (clock_at 90000000000)
     ((NewRateLimiter 0 0 example_config)
        \<lparr>requestCount := 2, tokenCount := 7, dailyCount := 2\<rparr>)) = 2 \<and>
   dailyReset (rolled (clock_at 90000000000)
     ((NewRateLimiter 0 0 example_config)
        \<lparr>requestCount := 2, tokenCount := 7, dailyCount := 2\<rparr>)) = 0 \<and>
   fst (CheckLimit (clock_at 90000000000)
     ((NewRateLimiter 0 0 example_config)
        \<lparr>requestCount := 2, tokenCount := 7, dailyCount := 2\<rparr>)) = None \<and>
   requestCount (snd (CheckLimit (clock_at 90000000000)
     ((NewRateLimiter 0 0 example_config)
        \<lparr>requestCount := 2, tokenCount := 7, dailyCount := 2\<rparr>))) = 1 \<and>
   dailyCount (snd (CheckLimit (clock_at 90000000000)
     ((NewRateLimiter 0 0 example_config)
        \<lparr>requestCount := 2, tokenCount := 7, dailyCount := 2\<rparr>))) = 3 \<and>
   Minute \<le> time_Sub (at_entry (clock_at 90000000000000))
              (lastReset ((NewRateLimiter 0 0 example_config)
                 \<lparr>requestCount := 2, tokenCount := 7, dailyCount := 2\<rparr>)) \<and>
   24 * Hour \<le> time_Sub (at_entry (clock_at 90000000000000))
     (dailyReset ((NewRateLimiter 0 0 example_config)
        \<lparr>requestCount := 2, tokenCount := 7, dailyCount := 2\<rparr>)) \<and>
   requestCount (rolled (clock_at 90000000000000)
     ((NewRateLimiter 0 0 example_config)
        \<lparr>requestCount := 2, tokenCount := 7, dailyCount := 2\<rparr>)) = 0 \<and>
   tokenCount (rolled (clock_at 90000000000000)
     ((NewRateLimiter 0 0 example_config)
        \<lparr>requestCount := 2, tokenCount := 7, dailyCount := 2\<rparr>)) = 0 \<and>
   lastReset (rolled (clock_at 90000000000000)
     ((NewRateLimiter 0 0 example_config)
        \<lparr>requestCount := 2, tokenCount := 7, dailyCount := 2\<rparr>)) = 90000000000000"
  using minute_rollover
      [of "clock_at 90000000000"
          "(NewRateLimiter 0 0 example_config)
             \<lparr>requestCount := 2, tokenCount := 7, dailyCount := 2\<rparr>"]
    minute_rollover
      [of "clock_at 90000000000000"
          "(NewRateLimiter 0 0 example_config)
             \<lparr>requestCount := 2, tokenCount := 7, dailyCount := 2\<rparr>"]
  by (simp add: eval_defs)

text \<open>
  Claim C8.  \<^verbatim>\<open>Reset\<close> called less than a minute after \<open>lastReset\<close> leaves
  \<open>requestCount\<close>, \<open>tokenCount\<close> and \<open>lastReset\<close> as they were; it sets \<open>dailyCount\<close> to
  zero and \<open>dailyReset\<close> to \<open>now\<close>.
\<close>

theorem Reset_within_minute:
  assumes "time_Sub (at_entry c) (lastReset r) < Minute"
  shows "requestCount (Reset c r) = requestCount r \<and>
         tokenCount (Reset c r) = tokenCount r \<and>
         lastReset (Reset c r) = lastReset r \<and>
         dailyCount (Reset c r) = 0 \<and>
         dailyReset (Reset c r) = at_entry c \<and>
         config (Reset c r) = config r"
  using assms by (simp add: Reset_def Let_def resetMinuteCounts_early resetDailyCounts_def)

theorem Reset_within_minute_witness:
  "time_Sub (at_entry (clock_at 30000000000))
     (lastReset ((NewRateLimiter 0 0 example_config)
        \<lparr>requestCount := 2, tokenCount := 7, dailyCount := 2\<rparr>)) < Minute \<and>
   requestCount (Reset (clock_at 30000000000)
     ((NewRateLimiter 0 0 example_config)
        \<lparr>requestCount := 2, tokenCount := 7, dailyCount := 2\<rparr>)) = 2 \<and>
   tokenCount (Reset (clock_at 30000000000)
     ((NewRateLimiter 0 0 example_config)
        \<lparr>requestCount := 2, tokenCount := 7, dailyCount := 2\<rparr>)) = 7 \<and>
   dailyCount (Reset (clock_at 30000000000)
     ((NewRateLimiter 0 0 example_config)
        \<lparr>requestCount := 2, tokenCount := 7, dailyCount := 2\<rparr>)) = 0"
  using Reset_within_minute
    [of "clock_at 30000000000"
        "(NewRateLimiter 0 0 example_config)
           \<lparr>requestCount := 2, tokenCount := 7, dailyCount := 2\<rparr>"]
  by (simp add: eval_defs)

lemma rolled_early:
  assumes "time_Sub (at_entry c) (lastReset r) < Minute"
  shows "tokenCount (rolled c r) = tokenCount r" "lastReset (rolled c r) = lastReset r"
     "requestCount (rolled c r) = requestCount r"
  using assms by (simp_all add: rolled_def Let_def resetDailyCounts_def)

lemma rolled_due:
  assumes "Minute \<le> time_Sub (at_entry c) (lastReset r)"
  shows "tokenCount (rolled c r) = 0"
  using assms by (simp add: rolled_def Let_def resetDailyCounts_def resetMinuteCounts_due)

lemma tokenCount_CheckLimit: "tokenCount (snd (CheckLimit c r)) = tokenCount (rolled c r)"
  by (cases "exceeded (rolled c r)") (simp_all add: CheckLimit_refused CheckLimit_admitted)

text \<open>
  Claim C9.  \<^verbatim>\<open>TrackTokens\<close> adds \<open>n\<close> to \<open>tokenCount\<close> whatever the outcome, reports an
  error exactly when the new count has reached \<open>TPM\<close>, and leaves \<open>requestCount\<close>,
  \<open>lastReset\<close>, \<open>dailyCount\<close> and \<open>dailyReset\<close> as they were: it never resets the minute
  window.  A later \<^verbatim>\<open>CheckLimit\<close> or \<^verbatim>\<open>Reset\<close> keeps \<open>tokenCount\<close> while less than a
  minute has passed since \<open>lastReset\<close>, and sets it to zero once a minute has passed.
\<close>

theorem TrackTokens_effect:
  "tokenCount (snd (TrackTokens c n r)) = tokenCount r + n \<and>
   requestCount (snd (TrackTokens c n r)) = requestCount r \<and>
   lastReset (snd (TrackTokens c n r)) = lastReset r \<and>
   dailyCount (snd (TrackTokens c n r)) = dailyCount r \<and>
   dailyReset (snd (TrackTokens c n r)) = dailyReset r \<and>
   config (snd (TrackTokens c n r)) = config r \<and>
   (fst (TrackTokens c n r) \<noteq> None \<longleftrightarrow> sint (TPM (config r)) \<le> sint (tokenCount r + n)) \<and>
   (time_Sub (at_entry c') (lastReset r) < Minute \<longrightarrow>
      tokenCount (snd (CheckLimit c' r)) = tokenCount r \<and>
      tokenCount (Reset c' r) = tokenCount r) \<and>
   (Minute \<le> time_Sub (at_entry c') (lastReset r) \<longrightarrow>
      tokenCount (snd (CheckLimit c' r)) = 0 \<and> tokenCount (Reset c' r) = 0)"
proof -
  have a: "tokenCount (snd (TrackTokens c n r)) = tokenCount r + n"
      "requestCount (snd (TrackTokens c n r)) = requestCount r"
      "lastReset (snd (TrackTokens c n r)) = lastReset r"
      "dailyCount (snd (TrackTokens c n r)) = dailyCount r"
      "dailyReset (snd (TrackTokens c n r)) = dailyReset r"
      "config (snd (TrackTokens c n r)) = config r"
    by (simp_all add: TrackTokens_def Let_def)
  have b: "fst (TrackTokens c n r) \<noteq> None \<longleftrightarrow> sint (TPM (config r)) \<le> sint (tokenCount r + n)"
    by (simp add: TrackTokens_def Let_def)
  have e: "tokenCount (snd (CheckLimit c' r)) = tokenCount r \<and>
      tokenCount (Reset c' r) = tokenCount r"
    if "time_Sub (at_entry c') (lastReset r) < Minute"
    using that
    by (simp add: tokenCount_CheckLimit rolled_early Reset_def Let_def resetDailyCounts_def
        resetMinuteCounts_early)
  have d: "tokenCount (snd (CheckLimit c' r)) = 0 \<and> tokenCount (Reset c' r) = 0"
    if "Minute \<le> time_Sub (at_entry c') (lastReset r)"
    using that
    by (simp add: tokenCount_CheckLimit rolled_due Reset_def Let_def resetDailyCounts_def
        resetMinuteCounts_due)
  from a b e d show ?thesis by blast
qed

theorem TrackTokens_effect_witness:
  "fst (TrackTokens (clock_at 1) 150 (NewRateLimiter 0 0 example_config)) \<noteq> None \<and>
   tokenCount (snd (TrackTokens (clock_at 1) 150 (NewRateLimiter 0 0 example_config))) = 150 \<and>
   time_Sub (at_entry (clock_at 30000000000))
     (lastReset (snd (TrackTokens (clock_at 1) 150 (NewRateLimiter 0 0 example_config))))
     < Minute \<and>
   tokenCount (snd (CheckLimit (clock_at 30000000000)
     (snd (TrackTokens (clock_at 1) 150 (NewRateLimiter 0 0 example_config))))) = 150 \<and>
   Minute \<le> time_Sub (at_entry (clock_at 90000000000))
     (lastReset (snd (TrackTokens (clock_at 1) 150 (NewRateLimiter 0 0 example_config)))) \<and>
   tokenCount (snd (CheckLimit (clock_at 90000000000)
     (snd (TrackTokens (clock_at 1) 150 (NewRateLimiter 0 0 example_config))))) = 0"
  using TrackTokens_effect
      [of "clock_at 1" 150 "NewRateLimiter 0 0 example_config" "clock_at 30000000000"]
    TrackTokens_effect
      [of "clock_at 1" 0
          "snd (TrackTokens (clock_at 1) 150 (NewRateLimiter 0 0 example_config))"
          "clock_at 30000000000"]
    TrackTokens_effect
      [of "clock_at 1" 0
          "snd (TrackTokens (clock_at 1) 150 (NewRateLimiter 0 0 example_config))"
          "clock_at 90000000000"]
  by (simp add: eval_defs)

subsection \<open>Admissions within one minute window\<close>

lemma printedSeconds_near:
  "2 * printedSeconds d * Second \<le> 2 * d + Second \<and> 2 * d - Second \<le> 2 * printedSeconds d * Second"
proof -
  define q where "q = d div Second"
  define r where "r = d mod Second"
  have S: "Second = 1000000000" by (simp add: Second_def)
  have d: "d = q * 1000000000 + r" by (simp add: q_def r_def S)
  have r: "0 \<le> r" "r < 1000000000" by (simp_all add: r_def S)
  have p: "printedSeconds d =
      (if 2 * r < 1000000000 then q else if 1000000000 < 2 * r then q + 1
       else if even q then q else q + 1)"
    by (simp add: printedSeconds_def Let_def q_def r_def S)
  define x where "x = printedSeconds d"
  from p have x: "x = q \<and> 2 * r \<le> 1000000000 \<or> x = q + 1 \<and> 1000000000 \<le> 2 * r"
    unfolding x_def by (auto split: if_splits)
  with d r have "2 * x * 1000000000 \<le> 2 * d + 1000000000 \<and>
      2 * d - 1000000000 \<le> 2 * x * 1000000000"
    by auto
  then show ?thesis by (simp add: x_def S)
qed

lemma printedSeconds_mono:
  assumes "a \<le> b"
  shows "printedSeconds a \<le> printedSeconds b"
proof (rule ccontr)
  assume "\<not> printedSeconds a \<le> printedSeconds b"
  then have gt: "printedSeconds b + 1 \<le> printedSeconds a" by simp
  have S: "Second = 1000000000" by (simp add: Second_def)
  from printedSeconds_near [of a] printedSeconds_near [of b]
  have "2 * printedSeconds a * 1000000000 \<le> 2 * a + 1000000000"
    "2 * b - 1000000000 \<le> 2 * printedSeconds b * 1000000000"
    by (simp_all add: S)
  with gt assms have "a = b" by linarith
  with gt show False by simp
qed

lemma printedSeconds_zero: "printedSeconds 0 = 0"
  by (simp add: printedSeconds_def Second_def)

lemma printedSeconds_Minute: "printedSeconds Minute = 60"
  by (simp add: printedSeconds_def Second_def Minute_def)


lemma printedSeconds_window:
  assumes "0 \<le> d" and "d \<le> Minute"
  shows "0 \<le> printedSeconds d" and "printedSeconds d \<le> 60"
  using printedSeconds_mono [OF assms(1)] printedSeconds_mono [OF assms(2)]
  by (simp_all add: printedSeconds_zero printedSeconds_Minute)

lemma rolled_no_minute_reset:
  assumes "at_entry c - lastReset r < Minute"
  shows "requestCount (rolled c r) = requestCount r"
    and "tokenCount (rolled c r) = tokenCount r"
    and "lastReset (rolled c r) = lastReset r"
    and "dailyCount (rolled c r) = 0 \<or> dailyCount (rolled c r) = dailyCount r"
  using assms
  by (simp_all add: rolled_def Let_def resetDailyCounts_def time_Sub_less_Minute [symmetric])

lemma CheckLimit_in_window:
  assumes win: "at_entry c - lastReset r < Minute"
    and rq: "sint (requestCount r) < sint (RPM (config r))"
    and tk: "sint (tokenCount r) < sint (TPM (config r))"
    and d0: "0 \<le> sint (dailyCount r)"
    and dy: "sint (dailyCount r) < sint (RPD (config r))"
  shows "fst (CheckLimit c r) = None \<and>
         sint (requestCount (snd (CheckLimit c r))) = sint (requestCount r) + 1 \<and>
         tokenCount (snd (CheckLimit c r)) = tokenCount r \<and>
         lastReset (snd (CheckLimit c r)) = lastReset r \<and>
         config (snd (CheckLimit c r)) = config r \<and>
         0 \<le> sint (dailyCount (snd (CheckLimit c r))) \<and>
         sint (dailyCount (snd (CheckLimit c r))) \<le> sint (dailyCount r) + 1"
proof -
  let ?q = "rolled c r"
  note q = rolled_no_minute_reset [OF win]
  from q(4) d0 dy have dq: "0 \<le> sint (dailyCount ?q)" "sint (dailyCount ?q) < sint (RPD (config r))"
    "sint (dailyCount ?q) \<le> sint (dailyCount r)"
    by auto
  have "\<not> exceeded ?q"
    using rq tk dq by (simp add: exceeded_def q)
  note eq = CheckLimit_admitted [OF this]
  have s1: "sint (requestCount r + 1) = sint (requestCount r) + 1"
    by (rule sint_succ_below [OF rq])
  have s2: "sint (dailyCount ?q + 1) = sint (dailyCount ?q) + 1"
    by (rule sint_succ_below [OF dq(2)])
  show ?thesis using dq s1 s2 by (simp add: eq q)
qed

lemma CheckLimits_in_window:
  assumes "\<forall>c\<in>set cs. at_entry c - lastReset r < Minute"
    and "sint (requestCount r) + int (length cs) \<le> sint (RPM (config r))"
    and "sint (tokenCount r) < sint (TPM (config r))"
    and "0 \<le> sint (dailyCount r)"
    and "sint (dailyCount r) + int (length cs) \<le> sint (RPD (config r))"
  shows "fst (CheckLimits cs r) = replicate (length cs) None \<and>
         sint (requestCount (snd (CheckLimits cs r))) = sint (requestCount r) + int (length cs) \<and>
         tokenCount (snd (CheckLimits cs r)) = tokenCount r \<and>
         lastReset (snd (CheckLimits cs r)) = lastReset r \<and>
         config (snd (CheckLimits cs r)) = config r"
  using assms
proof (induction cs arbitrary: r)
  case Nil
  then show ?case by simp
next
  case (Cons c cs)
  obtain e r1 where step: "CheckLimit c r = (e, r1)" by (cases "CheckLimit c r")
  from Cons.prems have win: "at_entry c - lastReset r < Minute"
    and rq: "sint (requestCount r) < sint (RPM (config r))"
    and dy: "sint (dailyCount r) < sint (RPD (config r))" by simp_all
  from CheckLimit_in_window [OF win rq Cons.prems(3) Cons.prems(4) dy] step
  have e: "e = None"
    and r1: "sint (requestCount r1) = sint (requestCount r) + 1" "tokenCount r1 = tokenCount r"
      "lastReset r1 = lastReset r" "config r1 = config r" "0 \<le> sint (dailyCount r1)"
      "sint (dailyCount r1) \<le> sint (dailyCount r) + 1"
    by simp_all
  have ih: "fst (CheckLimits cs r1) = replicate (length cs) None \<and>
         sint (requestCount (snd (CheckLimits cs r1))) = sint (requestCount r1) + int (length cs) \<and>
         tokenCount (snd (CheckLimits cs r1)) = tokenCount r1 \<and>
         lastReset (snd (CheckLimits cs r1)) = lastReset r1 \<and>
         config (snd (CheckLimits cs r1)) = config r1"
  proof (rule Cons.IH)
    show "\<forall>c\<in>set cs. at_entry c - lastReset r1 < Minute"
      using Cons.prems(1) by (simp add: r1(3))
    show "sint (requestCount r1) + int (length cs) \<le> sint (RPM (config r1))"
      using Cons.prems(2) by (simp add: r1(1) r1(4))
    show "sint (tokenCount r1) < sint (TPM (config r1))"
      using Cons.prems(3) by (simp add: r1(2) r1(4))
    show "0 \<le> sint (dailyCount r1)" by (rule r1(5))
    show "sint (dailyCount r1) + int (length cs) \<le> sint (RPD (config r1))"
      using Cons.prems(5) r1(6) by (simp add: r1(4))
  qed
  obtain es r2 where run: "CheckLimits cs r1 = (es, r2)" by (cases "CheckLimits cs r1")
  have all: "CheckLimits (c # cs) r = (None # es, r2)"
    by (simp add: step run e)
  show ?case unfolding all using ih run r1(1-4) by simp
qed

lemma CheckLimit_RPM_reached:
  assumes "sint (RPM (config r)) \<le> sint (requestCount (rolled c r))"
  shows "fst (CheckLimit c r) =
           Some \<lparr>Type = ErrRateLimit,
                 Message = ErrorText ErrRateLimit
                   (RPMLimitReached (requestCount (rolled c r)) (RPM (config r))
                      (time_Sub (lastReset (rolled c r) + Minute) (at_until c)))\<rparr>"
proof -
  from assms have "exceeded (rolled c r)" by (simp add: exceeded_def)
  from CheckLimit_refused [OF this] assms show ?thesis
    by (simp add: checkLimitExceeded_def NewCustomError_def Error_def ErrRateLimitf_def
        time_Until_def time_Add_def)
qed

lemma fresh_rolled:
  "requestCount (rolled c (NewRateLimiter t0 t1 cfg)) = 0"
  "tokenCount (rolled c (NewRateLimiter t0 t1 cfg)) = 0"
  "dailyCount (rolled c (NewRateLimiter t0 t1 cfg)) = 0"
  using rolled_counters [of c "NewRateLimiter t0 t1 cfg"]
  by (simp_all add: NewRateLimiter_def)


lemma fresh_rolled_config: "config (rolled c (NewRateLimiter t0 t1 cfg)) = cfg"
  by (simp add: NewRateLimiter_def)

lemma refused_at_RPM:
  assumes cnt: "sint (requestCount r) = sint (RPM (config r))"
    and win: "at_entry c - lastReset r < Minute"
  shows "fst (CheckLimit c r) =
           Some \<lparr>Type = ErrRateLimit,
                 Message = ErrorText ErrRateLimit
                   (RPMLimitReached (RPM (config r)) (RPM (config r))
                      (time_Sub (lastReset r + Minute) (at_until c)))\<rparr>"
proof -
  from cnt have eq: "requestCount r = RPM (config r)" by (rule signed_word_eqI)
  note q = rolled_no_minute_reset [OF win]
  have "sint (RPM (config r)) \<le> sint (requestCount (rolled c r))"
    by (simp add: q eq)
  from CheckLimit_RPM_reached [OF this] show ?thesis by (simp add: q eq)
qed

text \<open>
  Claim C2, amended.  Take a fresh limiter whose configuration has \<open>0 \<le> RPM < RPD\<close> and
  \<open>0 < TPM\<close>, and \<open>RPM + 1\<close> calls of \<^verbatim>\<open>CheckLimit\<close> whose clock readings all lie in one
  minute window of the limiter, from \<open>W\<close> to \<open>W + Minute\<close>, where \<open>W\<close> is \<open>lastReset\<close> as the
  first call finds or sets it: the instant of creation when the first call comes less than
  a minute after it, and the first call's \<open>now\<close> truncated to the minute otherwise.  The
  first \<open>RPM\<close> calls return \<^verbatim>\<open>nil\<close>, also when the day window rolls over among them.  The
  next call returns a \<^verbatim>\<open>rate_limit_error\<close> with the RPM message, whose wait is the time from
  the reading inside \<^verbatim>\<open>time.Until\<close> to \<open>W + Minute\<close>.  The number of seconds the message
  prints is that wait rounded to the nearest second: it lies between 0 and 60, within half
  a second of the wait, and is at most the time that remained when the call began, rounded
  the same way.  It can be 0 (with less than half a second left) and it can exceed the
  whole seconds that remain (59.999999993 s print as 60).
\<close>

theorem admissions_within_window:
  assumes rpm: "0 \<le> sint (RPM cfg)" "sint (RPM cfg) < sint (RPD cfg)"
    and tpm: "0 < sint (TPM cfg)"
    and len: "length cs = nat (sint (RPM cfg))"
    and W: "W = lastReset (rolled (hd (cs @ [c'])) (NewRateLimiter t0 t1 cfg))"
    and win: "\<forall>c\<in>set (cs @ [c']). W \<le> at_entry c \<and> at_entry c < W + Minute"
    and until: "at_entry c' \<le> at_until c'" "at_until c' < W + Minute"
  shows "fst (CheckLimits cs (NewRateLimiter t0 t1 cfg)) = replicate (length cs) None \<and>
         (\<exists>e s. fst (CheckLimit c' (snd (CheckLimits cs (NewRateLimiter t0 t1 cfg)))) = Some e \<and>
            Type e = ErrRateLimit \<and>
            Message e = ErrorText ErrRateLimit
              (RPMLimitReached (RPM cfg) (RPM cfg) (W + Minute - at_until c')) \<and>
            printedWait (Message e) = Some s \<and>
            0 \<le> s \<and> s \<le> 60 \<and>
            2 * s * Second \<le> 2 * (W + Minute - at_until c') + Second \<and>
            2 * (W + Minute - at_until c') - Second \<le> 2 * s * Second \<and>
            s \<le> printedSeconds (W + Minute - at_entry c'))"
proof -
  let ?r0 = "NewRateLimiter t0 t1 cfg"
  let ?r' = "snd (CheckLimits cs ?r0)"
  let ?w = "W + Minute - at_until c'"
  from win have w': "W \<le> at_entry c'" "at_entry c' < W + Minute" by simp_all
  have cf: "config ?r0 = cfg" by (simp add: NewRateLimiter_def)
  have sub: "time_Sub (W + Minute) (at_until c') = ?w"
    using until w'
    by (simp add: time_Sub_def minDuration_def maxDuration_def Minute_def Second_def)
  have run: "fst (CheckLimits cs ?r0) = replicate (length cs) None \<and>
      fst (CheckLimit c' ?r') =
        Some \<lparr>Type = ErrRateLimit,
              Message = ErrorText ErrRateLimit
                (RPMLimitReached (RPM cfg) (RPM cfg) (time_Sub (W + Minute) (at_until c')))\<rparr>"
  proof (cases cs)
    case Nil
    with len rpm(1) have "sint (RPM cfg) = 0" by simp
    then have z: "sint (RPM cfg) \<le> sint (requestCount (rolled c' ?r0))"
      by (simp add: fresh_rolled)
    from Nil W have W': "lastReset (rolled c' ?r0) = W" by simp
    from \<open>sint (RPM cfg) = 0\<close> have "sint (RPM cfg) = sint (0 :: go_int)" by simp
    then have "RPM cfg = 0" by (rule signed_word_eqI)
    then show ?thesis
      using CheckLimit_RPM_reached [of ?r0 c'] z W' Nil
      by (simp add: fresh_rolled cf)
  next
    case (Cons c1 rest)
    let ?q = "rolled c1 ?r0"
    let ?r1 = "?q\<lparr>requestCount := requestCount ?q + 1, dailyCount := dailyCount ?q + 1\<rparr>"
    from Cons W have Wq: "lastReset ?q = W" by simp
    from Cons len have pos: "1 + int (length rest) = sint (RPM cfg)" by simp
    then have one: "1 \<le> sint (RPM cfg)" by simp
    have "\<not> exceeded ?q"
      using one rpm(2) tpm by (simp add: exceeded_def fresh_rolled cf)
    note first = CheckLimit_admitted [OF this]
    have r1: "requestCount ?r1 = 1" "tokenCount ?r1 = 0" "dailyCount ?r1 = 1"
      "lastReset ?r1 = W" "config ?r1 = cfg"
      by (simp_all add: fresh_rolled Wq cf)
    have rest: "fst (CheckLimits rest ?r1) = replicate (length rest) None \<and>
         sint (requestCount (snd (CheckLimits rest ?r1))) = sint (requestCount ?r1) + int (length rest) \<and>
         tokenCount (snd (CheckLimits rest ?r1)) = tokenCount ?r1 \<and>
         lastReset (snd (CheckLimits rest ?r1)) = lastReset ?r1 \<and>
         config (snd (CheckLimits rest ?r1)) = config ?r1"
    proof (rule CheckLimits_in_window)
      show "\<forall>c\<in>set rest. at_entry c - lastReset ?r1 < Minute"
        using win Cons unfolding r1 by auto
      show "sint (requestCount ?r1) + int (length rest) \<le> sint (RPM (config ?r1))"
        unfolding r1 using pos by simp
      show "sint (tokenCount ?r1) < sint (TPM (config ?r1))"
        unfolding r1 using tpm by simp
      show "0 \<le> sint (dailyCount ?r1)" unfolding r1 by simp
      show "sint (dailyCount ?r1) + int (length rest) \<le> sint (RPD (config ?r1))"
        unfolding r1 using pos rpm(2) by simp
    qed
    obtain es r2 where rr: "CheckLimits rest ?r1 = (es, r2)" by (cases "CheckLimits rest ?r1")
    have all: "CheckLimits (c1 # rest) ?r0 = (None # es, r2)"
      by (simp add: first rr)
    from rest rr have es: "es = replicate (length rest) None"
      and r2: "sint (requestCount r2) = sint (RPM (config r2))" "lastReset r2 = W" "config r2 = cfg"
      unfolding r1 using pos by simp_all
    have "at_entry c' - lastReset r2 < Minute" using w' by (simp add: r2)
    from refused_at_RPM [OF r2(1) this] have "fst (CheckLimit c' r2) =
        Some \<lparr>Type = ErrRateLimit,
              Message = ErrorText ErrRateLimit
                (RPMLimitReached (RPM cfg) (RPM cfg) (time_Sub (W + Minute) (at_until c')))\<rparr>"
      by (simp add: r2)
    with es show ?thesis unfolding Cons all by simp
  qed
  have near: "2 * printedSeconds ?w * Second \<le> 2 * ?w + Second"
    "2 * ?w - Second \<le> 2 * printedSeconds ?w * Second"
    using printedSeconds_near [of ?w] by simp_all
  have range: "0 \<le> printedSeconds ?w" "printedSeconds ?w \<le> 60"
    using printedSeconds_window [of ?w] until w' by simp_all
  have mono: "printedSeconds ?w \<le> printedSeconds (W + Minute - at_entry c')"
    using until by (intro printedSeconds_mono) simp
  from run sub near range mono show ?thesis by simp
qed

theorem admissions_within_window_witness:
  "0 \<le> sint (RPM example_config) \<and> sint (RPM example_config) < sint (RPD example_config) \<and>
   0 < sint (TPM example_config) \<and>
   length [clock_at 5, clock_at 6] = nat (sint (RPM example_config)) \<and>
   lastReset (rolled (hd ([clock_at 5, clock_at 6] @ [clock_at 7]))
                (NewRateLimiter 0 0 example_config)) = 0 \<and>
   at_entry (clock_at 5) < 0 + Minute \<and> at_entry (clock_at 6) < 0 + Minute \<and>
   at_entry (clock_at 7) \<le> at_until (clock_at 7) \<and> at_until (clock_at 7) < 0 + Minute \<and>
   fst (CheckLimits [clock_at 5, clock_at 6] (NewRateLimiter 0 0 example_config)) =
     [None, None] \<and>
   fst (CheckLimit (clock_at 7)
          (snd (CheckLimits [clock_at 5, clock_at 6] (NewRateLimiter 0 0 example_config)))) =
     Some \<lparr>Type = ErrRateLimit,
           Message = ErrorText ErrRateLimit (RPMLimitReached 2 2 59999999993)\<rparr> \<and>
   printedWait (ErrorText ErrRateLimit (RPMLimitReached 2 2 59999999993)) = Some 60 \<and>
   lastReset (rolled (hd ([clock_at 90000000000, clock_at 91000000000] @
                          [clock_at 119999999999]))
                (NewRateLimiter 0 0 example_config)) = 60000000000 \<and>
   at_entry (clock_at 91000000000) < 60000000000 + Minute \<and>
   at_until (clock_at 119999999999) < 60000000000 + Minute \<and>
   fst (CheckLimits [clock_at 90000000000, clock_at 91000000000]
          (NewRateLimiter 0 0 example_config)) = [None, None] \<and>
   fst (CheckLimit (clock_at 119999999999)
          (snd (CheckLimits [clock_at 90000000000, clock_at 91000000000]
                  (NewRateLimiter 0 0 example_config)))) =
     Some \<lparr>Type = ErrRateLimit,
           Message = ErrorText ErrRateLimit (RPMLimitReached 2 2 1)\<rparr> \<and>
   printedWait (ErrorText ErrRateLimit (RPMLimitReached 2 2 1)) = Some 0"
proof -
  let ?r = "NewRateLimiter 0 0 example_config"
  let ?m1 = "ErrorText ErrRateLimit (RPMLimitReached 2 2 59999999993)"
  let ?m2 = "ErrorText ErrRateLimit (RPMLimitReached 2 2 1)"
  have a: "lastReset (rolled (hd ([clock_at 5, clock_at 6] @ [clock_at 7])) ?r) = 0"
    by (simp add: eval_defs)
  have b: "lastReset (rolled (hd ([clock_at 90000000000, clock_at 91000000000] @
                          [clock_at 119999999999])) ?r) = 60000000000"
    by (simp add: eval_defs)
  have hyps: "0 \<le> sint (RPM example_config)" "sint (RPM example_config) < sint (RPD example_config)"
    "0 < sint (TPM example_config)" "length [clock_at 5, clock_at 6] = nat (sint (RPM example_config))"
    "at_entry (clock_at 5) < 0 + Minute" "at_entry (clock_at 6) < 0 + Minute"
    "at_entry (clock_at 7) \<le> at_until (clock_at 7)" "at_until (clock_at 7) < 0 + Minute"
    "at_entry (clock_at 91000000000) < 60000000000 + Minute"
    "at_until (clock_at 119999999999) < 60000000000 + Minute"
    by (simp_all add: example_config_def clock_at_def Minute_def Second_def)
  from admissions_within_window
      [of example_config "[clock_at 5, clock_at 6]" 0 "clock_at 7" 0 0, OF _ _ _ _ a [symmetric]]
  have c1: "fst (CheckLimits [clock_at 5, clock_at 6] ?r) = [None, None]"
    and "\<exists>e s. fst (CheckLimit (clock_at 7) (snd (CheckLimits [clock_at 5, clock_at 6] ?r))) = Some e \<and>
           Type e = ErrRateLimit \<and> Message e = ?m1 \<and> printedWait (Message e) = Some s \<and>
           59499999993 \<le> 1000000000 * s \<and> 1000000000 * s \<le> 60499999993"
    by (auto simp add: example_config_def clock_at_def Minute_def Second_def
          simp del: CheckLimits.simps)
  then obtain e1 s1
    where e1: "fst (CheckLimit (clock_at 7) (snd (CheckLimits [clock_at 5, clock_at 6] ?r))) = Some e1"
      "Type e1 = ErrRateLimit" "Message e1 = ?m1" "printedWait (Message e1) = Some s1"
      "59499999993 \<le> 1000000000 * s1" "1000000000 * s1 \<le> 60499999993"
    by blast
  from e1(2,3) have r1: "e1 = \<lparr>Type = ErrRateLimit, Message = ?m1\<rparr>" by (cases e1) simp
  from e1(5,6) have "s1 = 60" by arith
  with e1(3,4) have p1: "printedWait ?m1 = Some 60" by simp
  from admissions_within_window
      [of example_config "[clock_at 90000000000, clock_at 91000000000]" 60000000000
          "clock_at 119999999999" 0 0, OF _ _ _ _ b [symmetric]]
  have c2: "fst (CheckLimits [clock_at 90000000000, clock_at 91000000000] ?r) = [None, None]"
    and "\<exists>e s. fst (CheckLimit (clock_at 119999999999)
                 (snd (CheckLimits [clock_at 90000000000, clock_at 91000000000] ?r))) = Some e \<and>
           Type e = ErrRateLimit \<and> Message e = ?m2 \<and> printedWait (Message e) = Some s \<and>
           1 \<le> 1000000000 * s + 500000000 \<and> 1000000000 * s \<le> 500000001"
    by (auto simp add: example_config_def clock_at_def Minute_def Second_def
          simp del: CheckLimits.simps)
  then obtain e2 s2
    where e2: "fst (CheckLimit (clock_at 119999999999)
                 (snd (CheckLimits [clock_at 90000000000, clock_at 91000000000] ?r))) = Some e2"
      "Type e2 = ErrRateLimit" "Message e2 = ?m2" "printedWait (Message e2) = Some s2"
      "1 \<le> 1000000000 * s2 + 500000000" "1000000000 * s2 \<le> 500000001"
    by blast
  from e2(2,3) have r2: "e2 = \<lparr>Type = ErrRateLimit, Message = ?m2\<rparr>" by (cases e2) simp
  from e2(5,6) have "s2 = 0" by arith
  with e2(3,4) have p2: "printedWait ?m2 = Some 0" by simp
  from hyps a b c1 c2 e1(1) e2(1) p1 p2 show ?thesis
    unfolding r1 r2 by (simp del: CheckLimits.simps printedWait.simps)
qed

text \<open>
  Without \<open>0 < TPM\<close> the first call is refused already: with \<open>RPM = 1\<close>, \<open>TPM = 0\<close> and
  \<open>RPD = 2\<close> the first admission of a fresh limiter, made inside the window, returns the
  TPM error.
\<close>

theorem first_admission_refused_without_tokens:
  "sint (RPM tokenless_config) < sint (RPD tokenless_config) \<and>
   (0::int) \<le> at_entry (clock_at 5) \<and> at_entry (clock_at 5) < 0 + Minute \<and>
   fst (CheckLimits [clock_at 5] (NewRateLimiter 0 0 tokenless_config)) =
     [Some \<lparr>Type = ErrRateLimit,
            Message = ErrorText ErrRateLimit (TPMLimitReached 0 0 59999999995)\<rparr>]"
  by (simp add: eval_defs)

subsection \<open>The command extractor\<close>

lemma find_app:
  "find P (xs @ ys) = (case find P xs of None \<Rightarrow> find P ys | Some x \<Rightarrow> Some x)"
  by (induction xs) simp_all

lemma scanLines_find:
  "scanLines ls = find isValidCommand (map unmark (filter marked (map TrimSpace ls)))"
  by (induction ls) (simp_all add: Let_def marked_def unmark_def)

lemma find_submatch:
  "find isValidCommand (submatch re raw) =
     (if 1 < length (FindStringSubmatch re raw) \<and>
         isValidCommand (TrimSpace (FindStringSubmatch re raw ! 1))
      then Some (TrimSpace (FindStringSubmatch re raw ! 1)) else None)"
  by (simp add: submatch_def Let_def)

lemma extract_first_valid:
  "extractCommandAndOutput content =
     (case find isValidCommand (candidates (textOf (Parts content))) of
        None \<Rightarrow> ([], textOf (Parts content))
      | Some command \<Rightarrow> (command, textOf (Parts content)))"
  by (simp add: extractCommandAndOutput_def candidates_def find_app find_submatch
      scanLines_find markerCandidates_def Let_def split: option.splits)

lemma run_codeBlock_other:
  "c \<noteq> CHR ''`'' \<Longrightarrow> run codeBlockRegex (c # s) = []"
  by (simp add: codeBlockRegex_def)

lemma Find_codeBlock_skip:
  assumes "CHR ''`'' \<notin> set pre" and "s \<noteq> []"
  shows "FindStringSubmatch codeBlockRegex (pre @ s) = FindStringSubmatch codeBlockRegex s"
  using assms
proof (induction pre)
  case Nil
  then show ?case by simp
next
  case (Cons a pre)
  then have "a \<noteq> CHR ''`''" by auto
  then have "run codeBlockRegex (a # pre @ s) = []" by (rule run_codeBlock_other)
  with Cons show ?case by simp
qed

lemma run_ls_block:
  "run codeBlockRegex (''```bash'' @ [NL] @ ''ls -la'' @ [NL] @ ''```'' @ post) =
     [(post, Some ''ls -la'')]"
  by (simp add: codeBlockRegex_def)

lemma Find_ls_block:
  "FindStringSubmatch codeBlockRegex (''```bash'' @ [NL] @ ''ls -la'' @ [NL] @ ''```'' @ post) =
     [''```bash'' @ [NL] @ ''ls -la'' @ [NL] @ ''```'', ''ls -la'']"
  using run_ls_block [of post] by simp

lemma valid_ls: "isValidCommand ''ls -la''"
  by (simp add: isValidCommand_def TrimSpace_def isSpace_def commonCmds_def ContainsAny_def)

lemma TrimSpace_ls: "TrimSpace ''ls -la'' = ''ls -la''"
  by (simp add: TrimSpace_def isSpace_def)

lemma extract_ls_block:
  assumes "CHR ''`'' \<notin> set pre"
  shows "extractCommandAndOutput
           (says (pre @ ''```bash'' @ [NL] @ ''ls -la'' @ [NL] @ ''```'' @ post)) =
         (''ls -la'', pre @ ''```bash'' @ [NL] @ ''ls -la'' @ [NL] @ ''```'' @ post)"
proof -
  let ?block = "''```bash'' @ [NL] @ ''ls -la'' @ [NL] @ ''```'' @ post"
  have "FindStringSubmatch codeBlockRegex (pre @ ?block) =
        FindStringSubmatch codeBlockRegex ?block"
    by (rule Find_codeBlock_skip [OF assms]) simp
  also have "\<dots> = [''```bash'' @ [NL] @ ''ls -la'' @ [NL] @ ''```'', ''ls -la'']"
    by (rule Find_ls_block)
  finally have m: "FindStringSubmatch codeBlockRegex (pre @ ?block) =
      [''```bash'' @ [NL] @ ''ls -la'' @ [NL] @ ''```'', ''ls -la'']" .
  show ?thesis
    unfolding extractCommandAndOutput_def says_def
    using m valid_ls by (simp add: TrimSpace_ls Let_def)
qed

declare FindStringSubmatch.simps [simp del]

text \<open>
  Claim C3.  The extractor returns the first candidate, in the order of its strategies
  (fenced block, inline span, marked lines, keyword pattern), that passes
  \<^verbatim>\<open>isValidCommand\<close>; a candidate that fails is skipped, never returned.  And for every
  text made of the fenced block \<^verbatim>\<open>```bash\<close>, \<^verbatim>\<open>ls -la\<close>, \<^verbatim>\<open>```\<close> with any text without a
  backquote before it and any text after it, a line \<^verbatim>\<open>$ pwd\<close> for one, the command
  extracted is \<^verbatim>\<open>ls -la\<close>.
\<close>

theorem fenced_block_first:
  "extractCommandAndOutput content =
     (case find isValidCommand (candidates (textOf (Parts content))) of
        None \<Rightarrow> ([], textOf (Parts content))
      | Some command \<Rightarrow> (command, textOf (Parts content))) \<and>
   (CHR ''`'' \<notin> set pre \<longrightarrow>
      extractCommandAndOutput
        (says (pre @ ''```bash'' @ [NL] @ ''ls -la'' @ [NL] @ ''```'' @ post)) =
      (''ls -la'', pre @ ''```bash'' @ [NL] @ ''ls -la'' @ [NL] @ ''```'' @ post))"
  using extract_first_valid [of content] extract_ls_block [of pre post] by blast

lemmas string_defs =
  isValidCommand_def TrimSpace_def isSpace_def commonCmds_def ContainsAny_def
  TrimPrefix_def toLower_def ToLower_def Let_def

lemmas regex_defs =
  codeBlockRegex_def inlineCodeRegex_def commandRegex_def Plus_def toLower_def
  FindStringSubmatch.simps

theorem fenced_block_first_witness:
  "CHR ''`'' \<notin> set (''$ pwd'' @ [NL]) \<and>
   extractCommandAndOutput
     (says ((''$ pwd'' @ [NL]) @ ''```bash'' @ [NL] @ ''ls -la'' @ [NL] @ ''```'' @ [])) =
     (''ls -la'', (''$ pwd'' @ [NL]) @ ''```bash'' @ [NL] @ ''ls -la'' @ [NL] @ ''```'' @ []) \<and>
   extractCommandAndOutput
     (says ([] @ ''```bash'' @ [NL] @ ''ls -la'' @ [NL] @ ''```'' @ ([NL] @ ''$ pwd''))) =
     (''ls -la'', [] @ ''```bash'' @ [NL] @ ''ls -la'' @ [NL] @ ''```'' @ ([NL] @ ''$ pwd''))"
  using fenced_block_first [of "says []" "''$ pwd'' @ [NL]" "[]"]
    fenced_block_first [of "says []" "[]" "[NL] @ ''$ pwd''"]
  by simp

subsection \<open>No valid candidate\<close>

lemma valid_nonempty: "isValidCommand c \<Longrightarrow> c \<noteq> []"
  by (auto simp add: isValidCommand_def TrimSpace_def)

lemma extract_snd: "snd (extractCommandAndOutput content) = textOf (Parts content)"
  by (simp add: extract_first_valid split: option.splits)

lemma extract_none:
  "fst (extractCommandAndOutput content) = [] \<longleftrightarrow>
     (\<forall>c\<in>set (candidates (textOf (Parts content))). \<not> isValidCommand c)"
proof (cases "find isValidCommand (candidates (textOf (Parts content)))")
  case None
  moreover from None have "\<forall>c\<in>set (candidates (textOf (Parts content))). \<not> isValidCommand c"
    by (auto simp add: find_None_iff)
  ultimately show ?thesis by (simp add: extract_first_valid)
next
  case (Some c)
  then have "isValidCommand c" "c \<in> set (candidates (textOf (Parts content)))"
    by (auto simp add: find_Some_iff)
  with Some valid_nonempty [of c] show ?thesis
    by (auto simp add: extract_first_valid)
qed

lemma path_invalid: "\<not> isValidCommand ''/usr/local/bin''"
  by (simp add: string_defs)

lemma path_candidates: "candidates ''/usr/local/bin'' = []"
  by (simp add: candidates_def submatch_def markerCandidates_def marked_def unmark_def
      regex_defs string_defs)

lemma quoted_path_candidates: "candidates ''`/usr/local/bin`'' = [''/usr/local/bin'']"
  by (simp add: candidates_def submatch_def markerCandidates_def marked_def unmark_def
      regex_defs string_defs)

text \<open>
  Claim C6.  The second component of the result is always the text of the answer,
  unchanged.  When no candidate of any strategy passes \<^verbatim>\<open>isValidCommand\<close>, the result is
  the empty command with that text; the function has no error result.  So it is for the
  bare path \<^verbatim>\<open>/usr/local/bin\<close>, which gives no candidate at all, and for the same path
  between backquotes, whose one candidate the path rule rejects.
\<close>

theorem no_valid_candidate:
  "snd (extractCommandAndOutput content) = textOf (Parts content) \<and>
   ((\<forall>c\<in>set (candidates (textOf (Parts content))). \<not> isValidCommand c) \<longrightarrow>
      extractCommandAndOutput content = ([], textOf (Parts content))) \<and>
   extractCommandAndOutput (says ''/usr/local/bin'') = ([], ''/usr/local/bin'') \<and>
   extractCommandAndOutput (says ''`/usr/local/bin`'') = ([], ''`/usr/local/bin`'')"
proof -
  have none: "extractCommandAndOutput c = ([], textOf (Parts c))"
    if "\<forall>x\<in>set (candidates (textOf (Parts c))). \<not> isValidCommand x" for c
    using that extract_none [of c] extract_snd [of c]
    by (simp add: prod_eq_iff)
  have p1: "extractCommandAndOutput (says ''/usr/local/bin'') = ([], ''/usr/local/bin'')"
    using none [of "says ''/usr/local/bin''"] by (simp add: says_def path_candidates)
  have p2: "extractCommandAndOutput (says ''`/usr/local/bin`'') = ([], ''`/usr/local/bin`'')"
    using none [of "says ''`/usr/local/bin`''"] path_invalid
    by (simp add: says_def quoted_path_candidates)
  from none [of content] extract_snd [of content] p1 p2 show ?thesis by blast
qed

theorem no_valid_candidate_witness:
  "candidates (textOf (Parts (says ''`/usr/local/bin`''))) = [''/usr/local/bin''] \<and>
   \<not> isValidCommand ''/usr/local/bin'' \<and>
   extractCommandAndOutput (says ''`/usr/local/bin`'') =
     ([], textOf (Parts (says ''`/usr/local/bin`'')))"
  using no_valid_candidate [of "says ''`/usr/local/bin`''"] path_invalid
  by (simp add: says_def quoted_path_candidates)

subsection \<open>What the code-block pattern matches\<close>

























subsection \<open>The command validator\<close>

lemma ToLower_Nil: "ToLower d = [] \<longleftrightarrow> d = []"
  by (simp add: ToLower_def)

lemma dangerous_nonempty: "d \<in> set dangerousCommands \<Longrightarrow> d \<noteq> []"
  by (auto simp add: dangerousCommands_def)

lemma ValidateCommand_dangerous:
  assumes "d \<in> set dangerousCommands"
    and "Contains (ToLower (TrimSpace command)) (ToLower d)"
  shows "\<exists>d'\<in>set dangerousCommands.
           Contains (ToLower (TrimSpace command)) (ToLower d') \<and>
           ValidateCommand goos command =
             Some \<lparr>Type = ErrPermission,
                   Message = Str (''potentially dangerous command detected: '' @ d')\<rparr>"
proof -
  let ?P = "\<lambda>dangerous. Contains (ToLower (TrimSpace command)) (ToLower dangerous)"
  have ne: "TrimSpace command \<noteq> []"
  proof
    assume "TrimSpace command = []"
    with assms(2) have "ToLower d = []" by (simp add: ToLower_def)
    with dangerous_nonempty [OF assms(1)] show False by (simp add: ToLower_Nil)
  qed
  from assms have "find ?P dangerousCommands \<noteq> None"
    by (auto simp add: find_None_iff)
  then obtain d' where f: "find ?P dangerousCommands = Some d'" by auto
  then have "?P d'" "d' \<in> set dangerousCommands"
    by (auto simp add: find_Some_iff)
  moreover from ne f have "ValidateCommand goos command =
      Some \<lparr>Type = ErrPermission,
            Message = Str (''potentially dangerous command detected: '' @ d')\<rparr>"
    by (simp add: ValidateCommand_def Let_def ErrPermissionf_def NewCustomError_def)
  ultimately show ?thesis by blast
qed

lemma TrimSpace_sudo_rm: "TrimSpace ''sudo rm -rf /var/log'' = ''sudo rm -rf /var/log''"
  by (simp add: TrimSpace_def isSpace_def)

lemma ToLower_sudo_rm: "ToLower ''sudo rm -rf /var/log'' = ''sudo rm -rf /var/log''"
  by (simp add: ToLower_def toLower_def)

lemma ToLower_rm_rf: "ToLower ''rm -rf'' = ''rm -rf''"
  by (simp add: ToLower_def toLower_def)

lemma sudo_rm_denied:
  "ValidateCommand goos ''sudo rm -rf /var/log'' =
     Some \<lparr>Type = ErrPermission,
           Message = Str ''potentially dangerous command detected: rm -rf''\<rparr>"
  by (simp add: ValidateCommand_def TrimSpace_sudo_rm dangerousCommands_def ToLower_sudo_rm
      ToLower_rm_rf ErrPermissionf_def NewCustomError_def)

lemma sudo_rm_privileged: "IsPrivilegedOperation goos ''sudo rm -rf /var/log''"
  by (simp add: IsPrivilegedOperation_def TrimSpace_sudo_rm)

text \<open>
  Claim C4.  On every platform \<^verbatim>\<open>ValidateCommand\<close> denies \<^verbatim>\<open>sudo rm -rf /var/log\<close>, a
  privileged command, with a permission error whose message names the deny-list entry
  \<^verbatim>\<open>rm -rf\<close>.  And every command that contains an entry of the deny-list, letter case
  aside, is denied with the permission error that names such an entry, never with the
  one about elevated privileges, whatever the privilege check would say.
\<close>

theorem deny_list_before_privilege:
  "ValidateCommand goos ''sudo rm -rf /var/log'' =
     Some \<lparr>Type = ErrPermission,
           Message = Str ''potentially dangerous command detected: rm -rf''\<rparr> \<and>
   IsPrivilegedOperation goos ''sudo rm -rf /var/log'' \<and>
   ((\<exists>d\<in>set dangerousCommands. Contains (ToLower (TrimSpace command)) (ToLower d)) \<longrightarrow>
      (\<exists>d\<in>set dangerousCommands.
         Contains (ToLower (TrimSpace command)) (ToLower d) \<and>
         ValidateCommand goos command =
           Some \<lparr>Type = ErrPermission,
                 Message = Str (''potentially dangerous command detected: '' @ d)\<rparr>) \<and>
      ValidateCommand goos command \<noteq>
        Some \<lparr>Type = ErrPermission,
              Message = Str ''this command requires elevated privileges''\<rparr>)"
proof (intro conjI impI)
  assume "\<exists>d\<in>set dangerousCommands. Contains (ToLower (TrimSpace command)) (ToLower d)"
  then obtain d where "d \<in> set dangerousCommands"
    "Contains (ToLower (TrimSpace command)) (ToLower d)" by blast
  from ValidateCommand_dangerous [OF this, of goos]
  show "\<exists>d\<in>set dangerousCommands.
         Contains (ToLower (TrimSpace command)) (ToLower d) \<and>
         ValidateCommand goos command =
           Some \<lparr>Type = ErrPermission,
                 Message = Str (''potentially dangerous command detected: '' @ d)\<rparr>"
    and "ValidateCommand goos command \<noteq>
        Some \<lparr>Type = ErrPermission,
              Message = Str ''this command requires elevated privileges''\<rparr>"
    by auto
qed (rule sudo_rm_denied sudo_rm_privileged)+

theorem deny_list_before_privilege_witness:
  "(\<exists>d\<in>set dangerousCommands.
      Contains (ToLower (TrimSpace ''RM -RF /var/log'')) (ToLower d)) \<and>
   IsPrivilegedOperation ''linux'' ''RM -RF /var/log'' \<and>
   \<not> HasPrefix ''RM -RF /var/log'' ''sudo '' \<and>
   ValidateCommand ''linux'' ''RM -RF /var/log'' =
     Some \<lparr>Type = ErrPermission,
           Message = Str ''potentially dangerous command detected: rm -rf''\<rparr>"
proof -
  have t: "TrimSpace ''RM -RF /var/log'' = ''RM -RF /var/log''"
    by (simp add: TrimSpace_def isSpace_def)
  have l: "ToLower ''RM -RF /var/log'' = ''rm -rf /var/log''"
    by (simp add: ToLower_def toLower_def)
  have v: "ValidateCommand ''linux'' ''RM -RF /var/log'' =
     Some \<lparr>Type = ErrPermission,
           Message = Str ''potentially dangerous command detected: rm -rf''\<rparr>"
    by (simp add: ValidateCommand_def t l dangerousCommands_def ToLower_rm_rf
      ErrPermissionf_def NewCustomError_def)
  have p: "IsPrivilegedOperation ''linux'' ''RM -RF /var/log''"
    by (simp add: IsPrivilegedOperation_def t criticalPaths_def)
  have "Contains (ToLower (TrimSpace ''RM -RF /var/log'')) (ToLower ''rm -rf'')"
    by (simp add: t l ToLower_rm_rf)
  then have d: "\<exists>d\<in>set dangerousCommands.
      Contains (ToLower (TrimSpace ''RM -RF /var/log'')) (ToLower d)"
    by (auto simp add: dangerousCommands_def)
  have h: "\<not> HasPrefix ''RM -RF /var/log'' ''sudo ''" by simp
  from deny_list_before_privilege [of "''linux''" "''RM -RF /var/log''"] d p v h
  show ?thesis by blast
qed

subsection \<open>The chat session\<close>

lemma addContext_rateLimiter [simp]:
  "addContext (c\<lparr>rateLimiter := rl\<rparr>) message = addContext c message"
  by (simp add: addContext_def)

lemma Send_ok:
  assumes "Send estimate backend ck message c = (Inr resp, c')"
  shows "\<exists>r candidate others content.
           backend [Text (addContext c message)] = Inr r \<and>
           Candidates r = candidate # others \<and>
           CandContent candidate = Some content \<and>
           Code resp = fst (extractCommandAndOutput content) \<and>
           FullOutput resp = snd (extractCommandAndOutput content) \<and>
           currentContext c' = (currentContext c)
             \<lparr>LastCommand := fst (extractCommandAndOutput content),
              LastModified := at_modified ck,
              CommandCount := CommandCount (currentContext c) + 1\<rparr>"
  using assms
  by (auto simp add: Send_def Let_def
      split: prod.splits option.splits sum.splits list.splits if_splits)

text \<open>
  Claim C5, amended.  After a \<^verbatim>\<open>Send\<close> that returns a response, \<open>LastCommand\<close> of the
  context is the command of that response, extracted from the first candidate of the
  backend's answer, \<open>LastModified\<close> is the clock reading of the update and \<open>CommandCount\<close>
  is one more than before.  \<open>LastOutput\<close>, \<open>WorkingDir\<close> and \<open>ErrorCount\<close> are what they
  were before the call.
\<close>

theorem Send_updates_context:
  assumes "Send estimate backend ck message c = (Inr resp, c')"
  shows "LastCommand (currentContext c') = Code resp \<and>
         CommandCount (currentContext c') = CommandCount (currentContext c) + 1 \<and>
         LastModified (currentContext c') = at_modified ck \<and>
         LastOutput (currentContext c') = LastOutput (currentContext c) \<and>
         WorkingDir (currentContext c') = WorkingDir (currentContext c) \<and>
         ErrorCount (currentContext c') = ErrorCount (currentContext c) \<and>
         (\<exists>r candidate others content.
            backend [Text (addContext c message)] = Inr r \<and>
            Candidates r = candidate # others \<and>
            CandContent candidate = Some content \<and>
            Code resp = fst (extractCommandAndOutput content) \<and>
            FullOutput resp = snd (extractCommandAndOutput content))"
proof -
  from Send_ok [OF assms] obtain r candidate others content where
    b: "backend [Text (addContext c message)] = Inr r" "Candidates r = candidate # others"
       "CandContent candidate = Some content"
    and o: "Code resp = fst (extractCommandAndOutput content)"
       "FullOutput resp = snd (extractCommandAndOutput content)"
    and ctx: "currentContext c' = (currentContext c)
             \<lparr>LastCommand := fst (extractCommandAndOutput content),
              LastModified := at_modified ck,
              CommandCount := CommandCount (currentContext c) + 1\<rparr>"
    by blast
  from ctx o have "LastCommand (currentContext c') = Code resp"
    "CommandCount (currentContext c') = CommandCount (currentContext c) + 1"
    "LastModified (currentContext c') = at_modified ck"
    "LastOutput (currentContext c') = LastOutput (currentContext c)"
    "WorkingDir (currentContext c') = WorkingDir (currentContext c)"
    "ErrorCount (currentContext c') = ErrorCount (currentContext c)"
    by simp_all
  with b o show ?thesis by blast
qed

lemma example_check:
  "CheckLimit (clock_at 5) (NewRateLimiter 0 0 example_config) =
     (None, (NewRateLimiter 0 0 example_config)\<lparr>requestCount := 1, dailyCount := 1\<rparr>)"
  by (simp add: eval_defs)

lemma example_track:
  "fst (TrackTokens (clock_at 7) 10
          ((NewRateLimiter 0 0 example_config)\<lparr>requestCount := 1, dailyCount := 1\<rparr>)) = None"
  by (simp add: eval_defs)

lemma example_extract:
  "extractCommandAndOutput (says example_reply) = (''ls -la'', example_reply)"
  using extract_ls_block [of "[]" "[]"] by (simp add: example_reply_def)

lemma example_Send:
  "fst (Send example_estimate example_backend example_send_clock ''list the files'' example_chat) =
     Inr \<lparr>Code = ''ls -la'', FullOutput = example_reply,
          Meta = \<lparr>meta_model = ''gemini-1.5-pro'', tokens_used = 10, command_count = 1,
                  error_count = 0\<rparr>\<rparr> \<and>
   currentContext
     (snd (Send example_estimate example_backend example_send_clock ''list the files''
             example_chat)) =
     example_context\<lparr>LastCommand := ''ls -la'', LastModified := 6, CommandCount := 1\<rparr>"
proof -
  obtain e rl where t: "TrackTokens (clock_at 7) 10
          ((NewRateLimiter 0 0 example_config)\<lparr>requestCount := 1, dailyCount := 1\<rparr>) = (e, rl)"
    by (cases "TrackTokens (clock_at 7) 10
          ((NewRateLimiter 0 0 example_config)\<lparr>requestCount := 1, dailyCount := 1\<rparr>)")
  with example_track have e: "e = None" by simp
  have p: "Parts (says example_reply) \<noteq> []" by (simp add: says_def)
  have n: "Name example_config = ''gemini-1.5-pro''" by (simp add: example_config_def)
  show ?thesis
    by (simp add: Send_def example_chat_def example_send_clock_def example_backend_def
        example_estimate_def example_check example_extract t e p n Let_def
        example_context_def)
qed

theorem Send_updates_context_witness:
  "Send example_estimate example_backend example_send_clock ''list the files'' example_chat =
     (Inr \<lparr>Code = ''ls -la'', FullOutput = example_reply,
           Meta = \<lparr>meta_model = ''gemini-1.5-pro'', tokens_used = 10, command_count = 1,
                   error_count = 0\<rparr>\<rparr>,
      snd (Send example_estimate example_backend example_send_clock ''list the files''
             example_chat)) \<and>
   LastCommand (currentContext
     (snd (Send example_estimate example_backend example_send_clock ''list the files''
             example_chat))) = ''ls -la'' \<and>
   CommandCount (currentContext
     (snd (Send example_estimate example_backend example_send_clock ''list the files''
             example_chat))) = 1"
proof -
  have s: "Send example_estimate example_backend example_send_clock ''list the files'' example_chat =
     (Inr \<lparr>Code = ''ls -la'', FullOutput = example_reply,
           Meta = \<lparr>meta_model = ''gemini-1.5-pro'', tokens_used = 10, command_count = 1,
                   error_count = 0\<rparr>\<rparr>,
      snd (Send example_estimate example_backend example_send_clock ''list the files''
             example_chat))"
    using example_Send by (simp add: prod_eq_iff)
  from Send_updates_context [OF s] s show ?thesis
    by (simp add: example_chat_def example_context_def)
qed

text \<open>
  \<open>LastOutput\<close> does not follow the exchange: the example session sends a request, the
  answer has the full output \<open>example_reply\<close>, not empty, and \<open>LastOutput\<close> is the empty
  string before and after.
\<close>

theorem Send_keeps_LastOutput:
  "fst (Send example_estimate example_backend example_send_clock ''list the files'' example_chat) =
     Inr \<lparr>Code = ''ls -la'', FullOutput = example_reply,
          Meta = \<lparr>meta_model = ''gemini-1.5-pro'', tokens_used = 10, command_count = 1,
                  error_count = 0\<rparr>\<rparr> \<and>
   example_reply \<noteq> [] \<and>
   LastOutput (currentContext example_chat) = [] \<and>
   LastOutput (currentContext
     (snd (Send example_estimate example_backend example_send_clock ''list the files''
             example_chat))) = []"
  using example_Send by (simp add: example_chat_def example_context_def example_reply_def)

end
